theory Spec2Isabelle
  imports Complex_Main "HOL-Library.Sublist"
begin

section \<open>Strings and the two output-directory patterns\<close>

text \<open>
  A JavaScript string is modelled as a \<open>string\<close>, one \<open>char\<close> per code unit; code units
  above 255 (among them the line terminators U+2028 and U+2029) are outside the model.

  Both patterns of \<^verbatim>\<open>extractOutputDirectory\<close> have the shape \<^verbatim>\<open>/LITERAL(.+)/\<close>: a literal
  text followed by a greedy, non-empty run of characters other than line terminators.
  \<open>String.prototype.match\<close> with such a pattern tries each start position from the left;
  at a position the literal has to be there and at least one more character of the line
  has to follow, and the group then takes the rest of the line.
\<close>

definition lineTerminator :: "char \<Rightarrow> bool" where
  "lineTerminator c = (c = CHR 0x0A \<or> c = CHR 0x0D)"

definition whiteSpace :: "char \<Rightarrow> bool" where
  "whiteSpace c = (c = CHR 0x09 \<or> c = CHR 0x0A \<or> c = CHR 0x0B \<or> c = CHR 0x0C
                   \<or> c = CHR 0x0D \<or> c = CHR 0x20 \<or> c = CHR 0xA0)"

definition trim :: "string \<Rightarrow> string" where
  "trim s = rev (dropWhile whiteSpace (rev (dropWhile whiteSpace s)))"

definition substring :: "string \<Rightarrow> nat \<Rightarrow> nat \<Rightarrow> string" where
  \<comment> \<open>\<^verbatim>\<open>s.substring(a, b)\<close> for \<open>a \<le> b\<close>, the only way the sources call it\<close>
  "substring s a b = take (b - a) (drop a s)"

definition match_here :: "string \<Rightarrow> string \<Rightarrow> string option" where
  \<comment> \<open>the pattern anchored at the head of \<open>s\<close>: the value of group 1, if it matches\<close>
  "match_here lit s =
     (if prefix lit s
      then (let cap = takeWhile (\<lambda>c. \<not> lineTerminator c) (drop (length lit) s)
            in if cap = [] then None else Some cap)
      else None)"

fun match_group :: "string \<Rightarrow> string \<Rightarrow> string option" where
  \<comment> \<open>\<^verbatim>\<open>s.match(/LITERAL(.+)/)\<close>: \<open>None\<close> is \<^verbatim>\<open>null\<close>, \<open>Some cap\<close> is a match with \<^verbatim>\<open>[1] = cap\<close>\<close>
  "match_group lit [] = None"
| "match_group lit (c # cs) =
     (case match_here lit (c # cs) of
        Some cap \<Rightarrow> Some cap
      | None \<Rightarrow> match_group lit cs)"

definition primary_pattern :: string where
  "primary_pattern = ''Output saved in: ''"

definition secondary_pattern :: string where
  "secondary_pattern = ''> Output saved in: ''"

definition extractOutputDirectory :: "string \<Rightarrow> string option" where
  \<comment> \<open>\<open>None\<close> is the \<^verbatim>\<open>null\<close> returned after the error line is logged\<close>
  "extractOutputDirectory output =
     (case match_group primary_pattern output of
        Some cap \<Rightarrow> Some (trim cap)
      | None \<Rightarrow>
          (case match_group secondary_pattern output of
             Some cap \<Rightarrow> Some (trim cap)
           | None \<Rightarrow> None))"


section \<open>Values and the platform\<close>

text \<open>
  Values that arrive as JSON (request bodies, the analysis document). A number carries
  the value of its double, and an object holds each of its keys once (of a key that the
  text repeats, the parser keeps the last value). \<^verbatim>\<open>undefined\<close> is \<open>None\<close> of
  \<open>json option\<close>.
\<close>

datatype json =
    JNull
  | JBool bool
  | JNum rat
  | JStr string
  | JArr "json list"
  | JObj "(string \<times> json) list"

fun truthy :: "json \<Rightarrow> bool" where
  "truthy JNull = False"
| "truthy (JBool b) = b"
| "truthy (JNum r) = (r \<noteq> 0)"
| "truthy (JStr s) = (s \<noteq> [])"
| "truthy (JArr xs) = True"
| "truthy (JObj kvs) = True"

fun truthy_opt :: "json option \<Rightarrow> bool" where
  "truthy_opt None = False"
| "truthy_opt (Some v) = truthy v"

fun get_prop :: "json \<Rightarrow> string \<Rightarrow> json option" where
  \<comment> \<open>\<^verbatim>\<open>v.key\<close> on a value other than \<^verbatim>\<open>null\<close>, for the keys the sources read
      (none of them a built-in property of strings, numbers or arrays)\<close>
  "get_prop (JObj kvs) k = map_of kvs k"
| "get_prop v k = None"

fun opt_prop :: "json option \<Rightarrow> string \<Rightarrow> json option" where
  \<comment> \<open>\<^verbatim>\<open>v?.key\<close>\<close>
  "opt_prop None k = None"
| "opt_prop (Some JNull) k = None"
| "opt_prop (Some v) k = get_prop v k"

fun or_null :: "json option \<Rightarrow> json" where
  \<comment> \<open>\<^verbatim>\<open>v || null\<close>\<close>
  "or_null None = JNull"
| "or_null (Some v) = (if truthy v then v else JNull)"

record URL =
  pathname :: string
  origin :: string

datatype proc_outcome =
    Closed "int option" string string
  | LaunchError string

text \<open>
  \<open>Closed code stdout stderr\<close> is the \<^verbatim>\<open>close\<close> event of a subprocess, with its exit code
  (\<^verbatim>\<open>null\<close> after a signal) and what it wrote; \<open>LaunchError message\<close> is its \<^verbatim>\<open>error\<close>
  event. The call of \<^verbatim>\<open>spawn\<close> itself may throw (an argument with a NUL character, on the
  versions of Node that check for it): \<open>spawn\<close> then gives \<open>Inl\<close> with the message of the
  error, and \<open>Inr\<close> with the outcome of the subprocess otherwise.

  What the code takes from Node and from the machine it runs on is a parameter. An
  exception of a library function is \<open>None\<close> or \<open>Inl message\<close>. The answers of the file
  system and of the subprocesses may differ from one URL of a job to the next, so they
  take the position of the URL in the job as well.
\<close>

record env =
  new_URL :: "string \<Rightarrow> URL option"
  URL_href :: "string \<Rightarrow> string \<Rightarrow> string option"
  JSON_parse :: "string \<Rightarrow> string + json"
  Number_toString :: "rat \<Rightarrow> string"
  Object_toString :: "string \<Rightarrow> json \<Rightarrow> string + string"
  Object_template :: "json \<Rightarrow> string + string"
  TypeError_null :: "string \<Rightarrow> string"
  path_join :: "string \<Rightarrow> string \<Rightarrow> string"
  path_basename :: "string \<Rightarrow> string"
  pythonPath :: string
  aiScriptPath :: string
  existsSync :: "nat \<Rightarrow> string \<Rightarrow> bool"
  spawn :: "nat \<Rightarrow> string \<Rightarrow> string list \<Rightarrow> string + proc_outcome"

text \<open>
  \<open>new_URL E s\<close> is \<^verbatim>\<open>new URL(s)\<close> and \<open>URL_href E s base\<close> is \<^verbatim>\<open>new URL(s, base).href\<close>;
  \<open>TypeError_null E key\<close> is the message of the TypeError for reading \<open>key\<close> of \<^verbatim>\<open>null\<close>.

  \<open>Number_toString\<close> is the string of a number. The conversion of an array or an object
  to a string may throw: a value read from JSON may have an own property \<^verbatim>\<open>toString\<close> or
  \<^verbatim>\<open>valueOf\<close>, and that is no function. \<open>Object_toString E expr v\<close> is the call
  \<^verbatim>\<open>expr.toString()\<close> where the expression \<open>expr\<close> has the array or object \<open>v\<close> as its
  value, and \<open>Object_template E v\<close> is \<^verbatim>\<open>`${v}`\<close>; \<open>Inl message\<close> is a TypeError with that
  message.
\<close>

fun toString_call :: "env \<Rightarrow> string \<Rightarrow> json \<Rightarrow> string + string" where
  \<comment> \<open>\<^verbatim>\<open>expr.toString()\<close>, the value of \<open>expr\<close> being \<open>v\<close>\<close>
  "toString_call E expr (JStr s) = Inr s"
| "toString_call E expr (JBool b) = Inr (if b then ''true'' else ''false'')"
| "toString_call E expr (JNum r) = Inr (Number_toString E r)"
| "toString_call E expr JNull = Inl (TypeError_null E ''toString'')"
| "toString_call E expr v = Object_toString E expr v"

fun template :: "env \<Rightarrow> json \<Rightarrow> string + string" where
  \<comment> \<open>\<^verbatim>\<open>`${v}`\<close>\<close>
  "template E (JStr s) = Inr s"
| "template E JNull = Inr ''null''"
| "template E (JBool b) = Inr (if b then ''true'' else ''false'')"
| "template E (JNum r) = Inr (Number_toString E r)"
| "template E v = Object_template E v"

section \<open>Parsing the output of a subprocess\<close>

definition parseProcessOutput :: "env \<Rightarrow> string \<Rightarrow> string \<Rightarrow> json" where
  "parseProcessOutput E output context =
     (case JSON_parse E output of
        Inr v \<Rightarrow> v
      | Inl message \<Rightarrow>
          JObj [(''success'', JBool False),
                (''error'', JStr (''Failed to parse '' @ context @ '' response: '' @ message)),
                (''raw_output'', JStr (substring output 0 200))])"

section \<open>The role of a URL\<close>

fun homePatterns_loop :: "env \<Rightarrow> string \<Rightarrow> string \<Rightarrow> string list \<Rightarrow> unit + bool" where
  \<comment> \<open>the \<^verbatim>\<open>for\<close> over \<^verbatim>\<open>homePatterns\<close>: \<open>Inl ()\<close> when \<^verbatim>\<open>new URL\<close> threw, \<open>Inr True\<close> when
      the loop returned \<^verbatim>\<open>true\<close>, \<open>Inr False\<close> when it ran to its end\<close>
  "homePatterns_loop E url org [] = Inr False"
| "homePatterns_loop E url org (pattern # patterns) =
     (case URL_href E pattern org of
        None \<Rightarrow> Inl ()
      | Some homeUrl \<Rightarrow>
          if url = homeUrl then Inr True else homePatterns_loop E url org patterns)"

definition homePatterns :: "string list" where
  "homePatterns = [''/'', ''/index.html'', ''/home'', ''/index.php'']"

definition isHomePageUrl :: "env \<Rightarrow> string \<Rightarrow> string list \<Rightarrow> bool" where
  "isHomePageUrl E url allUrls =
     (case new_URL E url of
        None \<Rightarrow> False
      | Some urlObj \<Rightarrow>
          if pathname urlObj = ''/'' \<or> pathname urlObj = '''' \<or> pathname urlObj = ''/index.html''
             \<or> pathname urlObj = ''/home''
          then True
          else if length allUrls > 1
          then (case homePatterns_loop E url (origin urlObj) homePatterns of
                  Inl _ \<Rightarrow> False
                | Inr True \<Rightarrow> True
                | Inr False \<Rightarrow> url = allUrls ! 0)
          else False)"

definition analysisType_of :: "env \<Rightarrow> string \<Rightarrow> string list \<Rightarrow> string" where
  \<comment> \<open>\<^verbatim>\<open>isHomePageUrl(url, job.urls) ? 'all' : 'body'\<close> in \<^verbatim>\<open>processAnalysisJob\<close>\<close>
  "analysisType_of E url allUrls = (if isHomePageUrl E url allUrls then ''all'' else ''body'')"

section \<open>Jobs, page results and events\<close>

record page_success =
  r_url :: string
  r_outputDir :: string
  r_analysisType :: string
  r_image_body :: string
  r_image_header :: "string option"
  r_image_footer :: "string option"
  r_bodyAnalysis :: json
  r_headerAnalysis :: "json option"
  r_footerAnalysis :: "json option"
  r_siteLinksAnalysis :: "json option"

datatype page_result =
    Success page_success
  | Failure string string

text \<open>
  \<open>Failure url message\<close> is \<^verbatim>\<open>{url, success: false, error: message}\<close>. In a \<open>Success\<close> the
  keys that only a full analysis sets are \<open>None\<close> when absent.
\<close>

fun result_url :: "page_result \<Rightarrow> string" where
  "result_url (Success s) = r_url s"
| "result_url (Failure url message) = url"

datatype event =
    Started string nat nat
  | PageComplete page_result
  | Finished string nat int

text \<open>
  \<open>Started jobId totalPages completed\<close>, \<open>PageComplete result\<close> and
  \<open>Finished jobId totalCompleted duration\<close> are the three payloads written to an event
  stream. A response object is a number; each request gets a fresh one. What is done to
  response objects is kept in a trace: \<open>Wrote res ev\<close> for a \<^verbatim>\<open>res.write\<close> that returned,
  \<open>Ended res\<close> for a call of \<^verbatim>\<open>res.end()\<close>, \<open>SentError res code message\<close> for \<^verbatim>\<open>sendError\<close>,
  and \<open>Threw res\<close> for an exception that leaves the handler of the request (the server
  defines no error handler of its own, so Express closes the connection).
\<close>

datatype effect =
    Wrote nat event
  | Ended nat
  | SentError nat nat string
  | Threw nat

datatype job_status = StatusStarted | StatusFinished

record job =
  urls :: "string list"
  headerHeight :: "json option"
  footerHeight :: "json option"
  status :: job_status
  completed :: "page_result list"
  total_pages :: nat
  startTime :: int
  sseConnections :: "nat list option"

text \<open>
  \<open>total_pages\<close> is the field \<^verbatim>\<open>total\<close>. \<open>sseConnections\<close> is the own property of the job,
  \<open>None\<close> until it is assigned.

  The state of the server. The job table \<^verbatim>\<open>global.analysisJobs\<close> is a plain object, so
  \<^verbatim>\<open>global.analysisJobs[jobId]\<close> finds, besides the jobs, what the table inherits from
  \<^verbatim>\<open>Object.prototype\<close>: \<^verbatim>\<open>Object.prototype\<close> itself under \<^verbatim>\<open>__proto__\<close>, a function under
  \<^verbatim>\<open>constructor\<close>, \<^verbatim>\<open>toString\<close> and the like, and a job reads the property
  \<^verbatim>\<open>sseConnections\<close> of \<^verbatim>\<open>Object.prototype\<close> while it has none of its own. So the state
  holds: the jobs of the table; whether the table has been created (it has, when it
  holds a job);
  \<^verbatim>\<open>Object.prototype.sseConnections\<close>; the own property \<^verbatim>\<open>sseConnections\<close> of the function
  found under a key; the next fresh response object; the response objects whose
  \<^verbatim>\<open>write\<close> throws; the \<^verbatim>\<open>close\<close> handlers registered on requests; the trace; and the
  calls of \<^verbatim>\<open>spawn\<close> so far, each with its program and arguments.
\<close>

record world =
  analysisJobs :: "string \<Rightarrow> job option"
  analysisJobs_defined :: bool
  prototype_sseConnections :: "nat list option"
  function_sseConnections :: "string \<Rightarrow> nat list option"
  next_res :: nat
  broken :: "nat \<Rightarrow> bool"
  closeHandlers :: "(string \<times> nat) list"
  trace :: "effect list"
  spawned :: "(string \<times> string list) list"

definition Object_prototype_functions :: "string list" where
  \<comment> \<open>the keys under which a plain object inherits a function\<close>
  "Object_prototype_functions =
     [''constructor'', ''hasOwnProperty'', ''isPrototypeOf'', ''propertyIsEnumerable'',
      ''toLocaleString'', ''toString'', ''valueOf'', ''__defineGetter__'',
      ''__defineSetter__'', ''__lookupGetter__'', ''__lookupSetter__'']"

definition sse_of :: "world \<Rightarrow> job \<Rightarrow> nat list option" where
  \<comment> \<open>what \<^verbatim>\<open>job.sseConnections\<close> reads: the own property of the job, else the inherited one\<close>
  "sse_of w job =
     (case sseConnections job of
        Some conns \<Rightarrow> Some conns
      | None \<Rightarrow> prototype_sseConnections w)"

definition update_sse :: "string \<Rightarrow> job \<Rightarrow> nat list \<Rightarrow> world \<Rightarrow> world" where
  \<comment> \<open>\<^verbatim>\<open>push\<close> and \<^verbatim>\<open>splice\<close> change the array that \<^verbatim>\<open>job.sseConnections\<close> reads, in place\<close>
  "update_sse jobId job conns w =
     (case sseConnections job of
        Some _ \<Rightarrow> w\<lparr>analysisJobs := (analysisJobs w)(jobId \<mapsto> job\<lparr>sseConnections := Some conns\<rparr>)\<rparr>
      | None \<Rightarrow> w\<lparr>prototype_sseConnections := Some conns\<rparr>)"

section \<open>Broadcasting\<close>

text \<open>
  \<^verbatim>\<open>Array.prototype.forEach\<close> reads the length once and then visits the indices below it
  that the array still has; the callback of \<^verbatim>\<open>broadcastToJob\<close> writes to the connection and,
  when the write throws, removes the element at the current index with \<^verbatim>\<open>splice\<close>.
\<close>

function forEach_write ::
  "(nat \<Rightarrow> bool) \<Rightarrow> event \<Rightarrow> nat \<Rightarrow> nat \<Rightarrow> nat list \<times> effect list \<Rightarrow> nat list \<times> effect list"
where
  "forEach_write brk ev k len (conns, tr) =
     (if k < len
      then (if k < length conns
            then (if brk (conns ! k)
                  then forEach_write brk ev (Suc k) len (take k conns @ drop (Suc k) conns, tr)
                  else forEach_write brk ev (Suc k) len (conns, tr @ [Wrote (conns ! k) ev]))
            else forEach_write brk ev (Suc k) len (conns, tr))
      else (conns, tr))"
  by pat_completeness auto
termination
  by (relation "measure (\<lambda>(brk, ev, k, len, s). len - k)") auto

text \<open>
  \<^verbatim>\<open>broadcastToJob\<close> and \<^verbatim>\<open>processAnalysisJob\<close> are called with the identifier that
  \<^verbatim>\<open>POST /start-analysis\<close> has made from the clock and a random number, which is no key
  that the table inherits; for an identifier without a job they return at once.
\<close>

definition broadcastToJob :: "string \<Rightarrow> event \<Rightarrow> world \<Rightarrow> world" where
  "broadcastToJob jobId eventData w =
     (case analysisJobs w jobId of
        None \<Rightarrow> w
      | Some job \<Rightarrow>
          (case sse_of w job of
             None \<Rightarrow> w
           | Some conns \<Rightarrow>
               (case forEach_write (broken w) eventData 0 (length conns) (conns, trace w) of
                  (conns', tr') \<Rightarrow> update_sse jobId job conns' (w\<lparr>trace := tr'\<rparr>))))"

declare forEach_write.simps [simp del]

text \<open>
  The same loop, read off the list: a connection whose write throws is removed and the
  connection after it moves into the index just visited, so it is passed over. The first
  list is what remains attached and the second who received the event.
\<close>

fun deliver :: "(nat \<Rightarrow> bool) \<Rightarrow> nat list \<Rightarrow> nat list \<times> nat list" where
  "deliver brk [] = ([], [])"
| "deliver brk (c # cs) =
     (if brk c
      then (case cs of
              [] \<Rightarrow> ([], [])
            | d # ds \<Rightarrow> (d # fst (deliver brk ds), snd (deliver brk ds)))
      else (c # fst (deliver brk cs), c # snd (deliver brk cs)))"


section \<open>The pipeline of one URL\<close>

record proc_result =
  proc_output :: string
  proc_error :: "string option"

fun template_str :: "string option \<Rightarrow> string" where
  \<comment> \<open>\<^verbatim>\<open>`${v}`\<close> for a string or \<^verbatim>\<open>null\<close>\<close>
  "template_str None = ''null''"
| "template_str (Some s) = s"

fun template_json :: "env \<Rightarrow> json option \<Rightarrow> string + string" where
  \<comment> \<open>\<^verbatim>\<open>`${v}`\<close> for a value or \<^verbatim>\<open>null\<close>\<close>
  "template_json E None = Inr ''null''"
| "template_json E (Some v) = template E v"

fun code_String :: "env \<Rightarrow> int option \<Rightarrow> string" where
  \<comment> \<open>\<^verbatim>\<open>`${code}`\<close> for an exit code\<close>
  "code_String E None = ''null''"
| "code_String E (Some n) = Number_toString E (of_int n)"

text \<open>
  Every subprocess is started by \<open>run_spawn\<close>, which gives the program and the arguments
  it hands to \<^verbatim>\<open>spawn\<close>, for the list of the calls of \<^verbatim>\<open>spawn\<close>, together with what \<^verbatim>\<open>spawn\<close>
  throws or how the subprocess ends. In \<^verbatim>\<open>runPythonScript\<close> an exception of \<^verbatim>\<open>spawn\<close>
  rejects the promise, so the \<^verbatim>\<open>await\<close> of the caller throws it (\<open>Inl\<close>); in
  \<^verbatim>\<open>runAIAnalysis\<close> it lands in the \<^verbatim>\<open>catch\<close> of the function.
\<close>

definition run_spawn ::
  "env \<Rightarrow> nat \<Rightarrow> string \<Rightarrow> string list
     \<Rightarrow> (string \<times> string list) list \<times> (string + proc_outcome)"
where
  "run_spawn E i program args = ([(program, args)], spawn E i program args)"

definition on_exit :: "env \<Rightarrow> proc_outcome \<Rightarrow> proc_result" where
  \<comment> \<open>the \<^verbatim>\<open>close\<close> and \<^verbatim>\<open>error\<close> handlers of \<^verbatim>\<open>runPythonScript\<close>\<close>
  "on_exit E outcome =
     (case outcome of
        Closed code stdout stderr \<Rightarrow>
          if code = Some 0 then \<lparr>proc_output = stdout, proc_error = None\<rparr>
          else \<lparr>proc_output = stdout,
                proc_error = Some (if stderr \<noteq> [] then stderr
                              else ''Process exited with code '' @ code_String E code)\<rparr>
      | LaunchError message \<Rightarrow> \<lparr>proc_output = [], proc_error = Some message\<rparr>)"

definition runPythonScript ::
  "env \<Rightarrow> nat \<Rightarrow> string \<Rightarrow> string list
     \<Rightarrow> (string \<times> string list) list \<times> (string + proc_result)"
where
  "runPythonScript E i moduleName args =
     (case run_spawn E i (pythonPath E) ([''-m'', moduleName] @ args) of
        (started, Inl message) \<Rightarrow> (started, Inl message)
      | (started, Inr outcome) \<Rightarrow> (started, Inr (on_exit E outcome)))"

definition height_args :: "env \<Rightarrow> string \<Rightarrow> string \<Rightarrow> json option \<Rightarrow> string + string list" where
  \<comment> \<open>\<^verbatim>\<open>if (h) screenshotArgs.push(flag, h.toString())\<close>: what is pushed, or the message of
      the TypeError that the call of \<^verbatim>\<open>toString\<close> throws; \<open>expr\<close> is the expression \<^verbatim>\<open>h\<close>\<close>
  "height_args E flag expr h =
     (case h of
        None \<Rightarrow> Inr []
      | Some v \<Rightarrow>
          if truthy v
          then (case toString_call E expr v of
                  Inl message \<Rightarrow> Inl message
                | Inr s \<Rightarrow> Inr [flag, s])
          else Inr [])"

definition screenshotArgs :: "env \<Rightarrow> job \<Rightarrow> string \<Rightarrow> string + string list" where
  \<comment> \<open>the array \<^verbatim>\<open>screenshotArgs\<close>, or the message of the TypeError thrown while it is built\<close>
  "screenshotArgs E job url =
     (case height_args E ''--header-height'' ''job.headerHeight'' (headerHeight job) of
        Inl message \<Rightarrow> Inl message
      | Inr header_args \<Rightarrow>
          (case height_args E ''--footer-height'' ''job.footerHeight'' (footerHeight job) of
             Inl message \<Rightarrow> Inl message
           | Inr footer_args \<Rightarrow> Inr ([url] @ header_args @ footer_args)))"

record ai_result =
  analysis :: "json option"
  ai_error :: "json option"

definition parse_failed :: "string \<Rightarrow> string \<Rightarrow> ai_result" where
  \<comment> \<open>the \<^verbatim>\<open>catch (parseError)\<close> of the \<^verbatim>\<open>close\<close> handler\<close>
  "parse_failed message stdout =
     \<lparr>analysis = None,
      ai_error = Some (JStr (''Failed to parse AI response: '' @ message
                             @ ''. Raw output: '' @ substring stdout 0 200))\<rparr>"

definition on_ai_stdout :: "env \<Rightarrow> string \<Rightarrow> ai_result" where
  \<comment> \<open>the \<^verbatim>\<open>close\<close> handler of \<^verbatim>\<open>runAIAnalysis\<close> for exit code 0\<close>
  "on_ai_stdout E stdout =
     (case JSON_parse E stdout of
        Inl message \<Rightarrow> parse_failed message stdout
      | Inr JNull \<Rightarrow> parse_failed (TypeError_null E ''success'') stdout
      | Inr a \<Rightarrow>
          if get_prop a ''success'' = Some (JBool False)
          then \<lparr>analysis = None,
                ai_error = Some (case get_prop a ''error'' of
                                   None \<Rightarrow> JStr ''AI analysis returned error''
                                 | Some e \<Rightarrow> if truthy e then e
                                            else JStr ''AI analysis returned error'')\<rparr>
          else \<lparr>analysis = Some a, ai_error = None\<rparr>)"

definition on_ai_exit :: "env \<Rightarrow> proc_outcome \<Rightarrow> ai_result" where
  \<comment> \<open>the \<^verbatim>\<open>close\<close> and \<^verbatim>\<open>error\<close> handlers of \<^verbatim>\<open>runAIAnalysis\<close>\<close>
  "on_ai_exit E outcome =
     (case outcome of
        Closed code stdout stderr \<Rightarrow>
          if code = Some 0 then on_ai_stdout E stdout
          else \<lparr>analysis = None,
                ai_error = Some (JStr (if stderr \<noteq> [] then stderr
                                       else ''AI analysis failed with code ''
                                            @ code_String E code))\<rparr>
      | LaunchError message \<Rightarrow> \<lparr>analysis = None, ai_error = Some (JStr message)\<rparr>)"

definition hasHeader :: "env \<Rightarrow> nat \<Rightarrow> string \<Rightarrow> bool" where
  "hasHeader E i outputDir =
     (existsSync E i (path_join E outputDir ''header.png'')
      \<and> existsSync E i (path_join E outputDir ''header.html''))"

definition hasFooter :: "env \<Rightarrow> nat \<Rightarrow> string \<Rightarrow> bool" where
  "hasFooter E i outputDir =
     (existsSync E i (path_join E outputDir ''footer.png'')
      \<and> existsSync E i (path_join E outputDir ''footer.html''))"

definition hasBody :: "env \<Rightarrow> nat \<Rightarrow> string \<Rightarrow> bool" where
  "hasBody E i outputDir =
     (existsSync E i (path_join E outputDir ''body.png'')
      \<and> existsSync E i (path_join E outputDir ''body.html''))"

text \<open>
  \<open>runAIAnalysis\<close> returns the calls of \<^verbatim>\<open>spawn\<close> it made together with its result. The two
  \<^verbatim>\<open>throw\<close>s of the file check and an exception of \<^verbatim>\<open>spawn\<close> land in its own \<^verbatim>\<open>catch\<close>,
  which returns their message as the error.
\<close>

definition runAIAnalysis ::
  "env \<Rightarrow> nat \<Rightarrow> string \<Rightarrow> string \<Rightarrow> string \<Rightarrow> (string \<times> string list) list \<times> ai_result"
where
  "runAIAnalysis E i outputDir url analysisType =
     (if analysisType = ''all'' \<and> \<not> hasHeader E i outputDir \<and> \<not> hasFooter E i outputDir
      then ([], \<lparr>analysis = None,
                 ai_error = Some (JStr ''No header or footer files found for full analysis'')\<rparr>)
      else if analysisType \<noteq> ''all'' \<and> analysisType = ''body'' \<and> \<not> hasBody E i outputDir
      then ([], \<lparr>analysis = None,
                 ai_error = Some (JStr ''No body files found for body analysis'')\<rparr>)
      else (case run_spawn E i (pythonPath E) [aiScriptPath E, outputDir, url, analysisType] of
              (started, Inl message) \<Rightarrow>
                (started, \<lparr>analysis = None, ai_error = Some (JStr message)\<rparr>)
            | (started, Inr outcome) \<Rightarrow> (started, on_ai_exit E outcome)))"

definition outputDirMatch :: "string \<Rightarrow> string option" where
  \<comment> \<open>\<^verbatim>\<open>output.match(/Output saved in: (.+)/) || output.match(/> Output saved in: (.+)/)\<close>\<close>
  "outputDirMatch out =
     (case match_group primary_pattern out of
        Some cap \<Rightarrow> Some cap
      | None \<Rightarrow> match_group secondary_pattern out)"

definition outputDir_of :: "proc_result \<Rightarrow> string + string" where
  \<comment> \<open>from the result of the capture to \<^verbatim>\<open>outputDir\<close>: \<open>Inl\<close> is the message of the error
      thrown, \<open>Inr\<close> the directory\<close>
  "outputDir_of screenshotResult =
     (if proc_error screenshotResult \<noteq> None \<and> proc_error screenshotResult \<noteq> Some []
      then Inl (''Screenshot failed: '' @ template_str (proc_error screenshotResult))
      else (case outputDirMatch (proc_output screenshotResult) of
              None \<Rightarrow> Inl ''Could not find output directory''
            | Some cap \<Rightarrow> Inr (trim cap)))"

definition assemble :: "string \<Rightarrow> string \<Rightarrow> string \<Rightarrow> json option \<Rightarrow> page_success" where
  \<comment> \<open>the \<^verbatim>\<open>result\<close> object of a page whose analysis succeeded\<close>
  "assemble url outputDirName analysisType a =
     \<lparr>r_url = url,
      r_outputDir = outputDirName,
      r_analysisType = analysisType,
      r_image_body = ''/screenshots/'' @ outputDirName @ ''/body.png'',
      r_image_header =
        (if analysisType = ''all'' then Some (''/screenshots/'' @ outputDirName @ ''/header.png'')
         else None),
      r_image_footer =
        (if analysisType = ''all'' then Some (''/screenshots/'' @ outputDirName @ ''/footer.png'')
         else None),
      r_bodyAnalysis = or_null (opt_prop (opt_prop a ''results'') ''body''),
      r_headerAnalysis =
        (if analysisType = ''all'' then Some (or_null (opt_prop (opt_prop a ''results'') ''header''))
         else None),
      r_footerAnalysis =
        (if analysisType = ''all'' then Some (or_null (opt_prop (opt_prop a ''results'') ''footer''))
         else None),
      r_siteLinksAnalysis =
        (if analysisType = ''all''
         then Some (or_null (opt_prop (opt_prop a ''results'') ''sitelinks''))
         else None)\<rparr>"

text \<open>
  The \<^verbatim>\<open>try\<close> block of \<^verbatim>\<open>processAnalysisJob\<close> for the URL at position \<open>i\<close>. Its first
  half, \<open>capture_run\<close>, builds the arguments, captures the page and finds the output
  directory: it gives the calls of \<^verbatim>\<open>spawn\<close> made and either the message of the error it
  throws (\<open>Inl\<close>) or the directory (\<open>Inr\<close>); \<open>capture_stage\<close> is the latter alone. When the
  arguments cannot be built, \<^verbatim>\<open>spawn\<close> is not called. The whole block gives the calls of
  \<^verbatim>\<open>spawn\<close> it made, and either the message of the error thrown (\<open>Inl\<close>) or the result
  object (\<open>Inr\<close>). The template of the \<^verbatim>\<open>throw\<close> for a failed analysis converts the error of
  the analysis to a string; when that conversion throws, its TypeError is what the block
  throws.
\<close>

definition capture_run ::
  "env \<Rightarrow> job \<Rightarrow> nat \<Rightarrow> string \<Rightarrow> (string \<times> string list) list \<times> (string + string)"
where
  "capture_run E job i url =
     (case screenshotArgs E job url of
        Inl message \<Rightarrow> ([], Inl message)
      | Inr args \<Rightarrow>
          (case runPythonScript E i ''screenshot_urlbox.processor'' args of
             (started, Inl message) \<Rightarrow> (started, Inl message)
           | (started, Inr screenshotResult) \<Rightarrow> (started, outputDir_of screenshotResult)))"

definition capture_stage :: "env \<Rightarrow> job \<Rightarrow> nat \<Rightarrow> string \<Rightarrow> string + string" where
  "capture_stage E job i url = snd (capture_run E job i url)"

definition try_block ::
  "env \<Rightarrow> job \<Rightarrow> nat \<Rightarrow> string \<Rightarrow> (string \<times> string list) list \<times> (string + page_success)"
where
  "try_block E job i url =
     (case capture_run E job i url of
        (started, Inl message) \<Rightarrow> (started, Inl message)
      | (started, Inr outputDir) \<Rightarrow>
          (let outputDirName = path_basename E outputDir;
               analysisType = analysisType_of E url (urls job)
           in case runAIAnalysis E i outputDir url analysisType of
                (started', aiResult) \<Rightarrow>
                  (started @ started',
                   if truthy_opt (ai_error aiResult)
                   then (case template_json E (ai_error aiResult) of
                           Inl message \<Rightarrow> Inl message
                         | Inr s \<Rightarrow> Inl (''AI analysis failed: '' @ s))
                   else Inr (assemble url outputDirName analysisType (analysis aiResult)))))"

definition page_result_of :: "env \<Rightarrow> job \<Rightarrow> nat \<Rightarrow> page_result" where
  \<comment> \<open>what the loop body pushes for position \<open>i\<close>: the result, or the \<^verbatim>\<open>errorResult\<close> of the
      \<^verbatim>\<open>catch\<close>\<close>
  "page_result_of E job i =
     (case snd (try_block E job i (urls job ! i)) of
        Inr result \<Rightarrow> Success result
      | Inl message \<Rightarrow> Failure (urls job ! i) message)"

definition loop_body :: "env \<Rightarrow> string \<Rightarrow> nat \<Rightarrow> world \<Rightarrow> world" where
  "loop_body E jobId i w =
     (case analysisJobs w jobId of
        None \<Rightarrow> w
      | Some job \<Rightarrow>
          broadcastToJob jobId (PageComplete (page_result_of E job i))
            (w\<lparr>analysisJobs :=
                 (analysisJobs w)(jobId \<mapsto> job\<lparr>completed := completed job @ [page_result_of E job i]\<rparr>),
               spawned := spawned w @ fst (try_block E job i (urls job ! i))\<rparr>))"

section \<open>The event stream of a job\<close>

text \<open>
  The handler of \<^verbatim>\<open>GET /analysis-stream/:jobId\<close> answers 404 when the table has not been
  created or has nothing under the identifier. Under an inherited key it finds an
  object that is no job: it pushes the response object on the \<^verbatim>\<open>sseConnections\<close> that
  this object reads, creating the property on the object when there is none, and then
  throws, \<^verbatim>\<open>job.completed\<close> being \<^verbatim>\<open>undefined\<close>. \<open>inherited_subscribe\<close> is that push, and
  \<open>None\<close> when the identifier is no inherited key: \<^verbatim>\<open>__proto__\<close> is \<^verbatim>\<open>Object.prototype\<close>
  itself; a function reads its own property, else the one of \<^verbatim>\<open>Object.prototype\<close>;
  \<^verbatim>\<open>sseConnections\<close> is a key once \<^verbatim>\<open>Object.prototype\<close> has that property, and the array
  found there reads itself.
\<close>

definition inherited_subscribe :: "string \<Rightarrow> world \<Rightarrow> world option" where
  "inherited_subscribe jobId w =
     (let res = next_res w in
      if jobId = ''__proto__''
      then Some (w\<lparr>prototype_sseConnections :=
                     Some ((case prototype_sseConnections w of None \<Rightarrow> [] | Some conns \<Rightarrow> conns)
                           @ [res])\<rparr>)
      else if jobId \<in> set Object_prototype_functions
      then Some (case function_sseConnections w jobId of
                   Some conns \<Rightarrow>
                     w\<lparr>function_sseConnections :=
                         (function_sseConnections w)(jobId \<mapsto> conns @ [res])\<rparr>
                 | None \<Rightarrow>
                     (case prototype_sseConnections w of
                        Some conns \<Rightarrow> w\<lparr>prototype_sseConnections := Some (conns @ [res])\<rparr>
                      | None \<Rightarrow>
                          w\<lparr>function_sseConnections :=
                              (function_sseConnections w)(jobId \<mapsto> [res])\<rparr>))
      else if jobId = ''sseConnections''
      then (case prototype_sseConnections w of
              Some conns \<Rightarrow> Some (w\<lparr>prototype_sseConnections := Some (conns @ [res])\<rparr>)
            | None \<Rightarrow> None)
      else None)"

definition analysis_stream :: "string \<Rightarrow> int \<Rightarrow> world \<Rightarrow> world" where
  \<comment> \<open>the handler of \<^verbatim>\<open>GET /analysis-stream/:jobId\<close>, \<open>now\<close> being \<^verbatim>\<open>Date.now()\<close>; its response
      object is \<open>next_res w\<close>\<close>
  "analysis_stream jobId now w =
     (case analysisJobs w jobId of
        None \<Rightarrow>
          (case (if analysisJobs_defined w then inherited_subscribe jobId w else None) of
             None \<Rightarrow>
               w\<lparr>next_res := Suc (next_res w),
                 trace := trace w @ [SentError (next_res w) 404 ''Job not found'']\<rparr>
           | Some w1 \<Rightarrow>
               w1\<lparr>next_res := Suc (next_res w), trace := trace w @ [Threw (next_res w)]\<rparr>)
      | Some job \<Rightarrow>
          (let res = next_res w;
               w1 = (case sse_of w job of
                       None \<Rightarrow>
                         w\<lparr>analysisJobs :=
                             (analysisJobs w)(jobId \<mapsto> job\<lparr>sseConnections := Some [res]\<rparr>)\<rparr>
                     | Some conns \<Rightarrow> update_sse jobId job (conns @ [res]) w)
                    \<lparr>next_res := Suc res\<rparr>
           in if broken w res then w1\<lparr>trace := trace w1 @ [Threw res]\<rparr>
              else (let replay = Wrote res (Started jobId (total_pages job) (length (completed job)))
                                 # map (\<lambda>result. Wrote res (PageComplete result)) (completed job);
                        w2 = w1\<lparr>trace := trace w1 @ replay,
                                closeHandlers := closeHandlers w1 @ [(jobId, res)]\<rparr>
                    in if status job = StatusFinished
                       then w2\<lparr>trace := trace w2
                                  @ [Wrote res (Finished jobId (length (completed job))
                                                  (now - startTime job)),
                                     Ended res]\<rparr>
                       else w2)))"

definition on_close :: "string \<Rightarrow> nat \<Rightarrow> world \<Rightarrow> world" where
  \<comment> \<open>the \<^verbatim>\<open>close\<close> handler that \<open>analysis_stream\<close> registers\<close>
  "on_close jobId res w =
     (case analysisJobs w jobId of
        None \<Rightarrow> w
      | Some job \<Rightarrow>
          (case sse_of w job of
             None \<Rightarrow> w
           | Some conns \<Rightarrow> update_sse jobId job (remove1 res conns) w))"

text \<open>
  What happens between two steps of a job: a client subscribes, the request of a
  subscriber closes (its handler runs once), or a connection becomes one whose \<^verbatim>\<open>write\<close>
  throws.
\<close>

datatype request =
    Subscribe string int
  | ClientClose string nat
  | Break nat

fun serve :: "request \<Rightarrow> world \<Rightarrow> world" where
  "serve (Subscribe jobId now) w = analysis_stream jobId now w"
| "serve (ClientClose jobId res) w =
     (if (jobId, res) \<in> set (closeHandlers w)
      then on_close jobId res (w\<lparr>closeHandlers := remove1 (jobId, res) (closeHandlers w)\<rparr>)
      else w)"
| "serve (Break res) w = w\<lparr>broken := (broken w)(res := True)\<rparr>"

definition serve_all :: "request list \<Rightarrow> world \<Rightarrow> world" where
  "serve_all reqs w = fold serve reqs w"

section \<open>Processing a job\<close>

text \<open>
  \<^verbatim>\<open>processAnalysisJob\<close> is asynchronous: while it awaits the subprocesses of the URL at
  position \<open>i\<close>, the server serves other requests, here \<open>sched i\<close>. The job is changed only
  after the last \<^verbatim>\<open>await\<close> of an iteration, so the requests come before the loop body in
  the model. Nothing is awaited between the last iteration and the end of the function.
  The list of URLs is never assigned after the job is created; the loop bound \<open>n\<close> is
  its length.

  Three things are taken for granted. A subprocess ends, with its \<^verbatim>\<open>close\<close> or its
  \<^verbatim>\<open>error\<close> event. What a failing \<^verbatim>\<open>res.write\<close> throws is an Error object, so that the
  \<^verbatim>\<open>catch\<close> of \<^verbatim>\<open>broadcastToJob\<close> does not throw in turn. The loops of other jobs are not
  interleaved with the run of this one.
\<close>

function for_loop ::
  "env \<Rightarrow> (nat \<Rightarrow> request list) \<Rightarrow> string \<Rightarrow> nat \<Rightarrow> nat \<Rightarrow> world \<Rightarrow> world"
where
  "for_loop E sched jobId i n w =
     (if i < n
      then for_loop E sched jobId (Suc i) n (loop_body E jobId i (serve_all (sched i) w))
      else w)"
  by pat_completeness auto
termination
  by (relation "measure (\<lambda>(E, sched, jobId, i, n, w). n - i)") auto

declare for_loop.simps [simp del]

definition close_connections :: "string \<Rightarrow> world \<Rightarrow> world" where
  \<comment> \<open>\<^verbatim>\<open>if (job.sseConnections) { forEach(res => res.end()); job.sseConnections = [] }\<close>; the
      assignment gives the job a property of its own\<close>
  "close_connections jobId w =
     (case analysisJobs w jobId of
        None \<Rightarrow> w
      | Some job \<Rightarrow>
          (case sse_of w job of
             None \<Rightarrow> w
           | Some conns \<Rightarrow>
               w\<lparr>analysisJobs := (analysisJobs w)(jobId \<mapsto> job\<lparr>sseConnections := Some []\<rparr>),
                 trace := trace w @ map Ended conns\<rparr>))"

definition finish_job :: "string \<Rightarrow> int \<Rightarrow> world \<Rightarrow> world" where
  \<comment> \<open>the end of \<^verbatim>\<open>processAnalysisJob\<close>, after the loop\<close>
  "finish_job jobId now w =
     (case analysisJobs w jobId of
        None \<Rightarrow> w
      | Some job \<Rightarrow>
          close_connections jobId
            (broadcastToJob jobId
               (Finished jobId (length (completed job)) (now - startTime job))
               (w\<lparr>analysisJobs := (analysisJobs w)(jobId \<mapsto> job\<lparr>status := StatusFinished\<rparr>)\<rparr>)))"

definition processAnalysisJob ::
  "env \<Rightarrow> (nat \<Rightarrow> request list) \<Rightarrow> int \<Rightarrow> string \<Rightarrow> world \<Rightarrow> world"
where
  "processAnalysisJob E sched now jobId w =
     (case analysisJobs w jobId of
        None \<Rightarrow> w
      | Some job \<Rightarrow> finish_job jobId now (for_loop E sched jobId 0 (length (urls job)) w))"

definition new_job :: "string list \<Rightarrow> json option \<Rightarrow> json option \<Rightarrow> int \<Rightarrow> job" where
  \<comment> \<open>the record that \<^verbatim>\<open>POST /start-analysis\<close> stores before it calls
      \<^verbatim>\<open>processAnalysisJob\<close>; the URLs of the request are taken to be strings\<close>
  "new_job us hh fh now =
     \<lparr>urls = us,
      headerHeight = hh,
      footerHeight = fh,
      status = StatusStarted,
      completed = [],
      total_pages = length us,
      startTime = now,
      sseConnections = None\<rparr>"

section \<open>Vocabulary for the properties\<close>

text \<open>
  The part of a job that only \<^verbatim>\<open>processAnalysisJob\<close> writes: the job without its
  subscribers.
\<close>

definition without_connections :: "job \<Rightarrow> job" where
  "without_connections job = job\<lparr>sseConnections := None\<rparr>"

definition job_view :: "world \<Rightarrow> string \<Rightarrow> job option" where
  "job_view w jobId = map_option without_connections (analysisJobs w jobId)"

definition connections :: "string \<Rightarrow> world \<Rightarrow> nat list" where
  \<comment> \<open>the subscriber set of a job: what \<^verbatim>\<open>job.sseConnections\<close> reads, empty for \<^verbatim>\<open>undefined\<close>\<close>
  "connections jobId w =
     (case analysisJobs w jobId of
        None \<Rightarrow> []
      | Some job \<Rightarrow> (case sse_of w job of None \<Rightarrow> [] | Some conns \<Rightarrow> conns))"

definition running :: "string \<Rightarrow> world \<Rightarrow> bool" where
  "running jobId w =
     (case analysisJobs w jobId of
        None \<Rightarrow> False
      | Some job \<Rightarrow> status job = StatusStarted)"

fun conn_of :: "effect \<Rightarrow> nat" where
  "conn_of (Wrote res ev) = res"
| "conn_of (Ended res) = res"
| "conn_of (SentError res code message) = res"
| "conn_of (Threw res) = res"

fun is_finished_event :: "event \<Rightarrow> bool" where
  "is_finished_event (Finished jobId n d) = True"
| "is_finished_event ev = False"

fun wrote_to :: "nat \<Rightarrow> effect \<Rightarrow> bool" where
  "wrote_to res (Wrote res' ev) = (res' = res)"
| "wrote_to res e = False"

fun finished_to :: "nat \<Rightarrow> effect \<Rightarrow> bool" where
  "finished_to res (Wrote res' ev) = (res' = res \<and> is_finished_event ev)"
| "finished_to res e = False"

text \<open>
  \<open>finished_last tr\<close>: in the trace, nothing is written to a connection after a
  \<^verbatim>\<open>finished\<close> event has been written to it.
\<close>

fun finished_last :: "effect list \<Rightarrow> bool" where
  "finished_last [] = True"
| "finished_last (e # es) =
     ((case e of
         Wrote res ev \<Rightarrow> is_finished_event ev \<longrightarrow> \<not> list_ex (wrote_to res) es
       | _ \<Rightarrow> True)
      \<and> finished_last es)"

definition trace_fresh :: "world \<Rightarrow> bool" where
  \<comment> \<open>the response objects in the trace are older than the next fresh one\<close>
  "trace_fresh w = (\<forall>e\<in>set (trace w). conn_of e < next_res w)"

text \<open>
  \<open>stream_inv jobId w\<close> says of a state of the server: the response objects in the trace
  and in the subscriber set of the job are older than the next fresh one.
  \<open>terminal_inv jobId w\<close> says more: no subscriber is in the set twice, nothing was
  written to a connection after a \<^verbatim>\<open>finished\<close> event, and while the job is running none of
  its subscribers has received a \<^verbatim>\<open>finished\<close> event.
\<close>

definition stream_inv :: "string \<Rightarrow> world \<Rightarrow> bool" where
  "stream_inv jobId w =
     (trace_fresh w \<and> (\<forall>c\<in>set (connections jobId w). c < next_res w))"

definition terminal_inv :: "string \<Rightarrow> world \<Rightarrow> bool" where
  "terminal_inv jobId w =
     (trace_fresh w
      \<and> (\<forall>c\<in>set (connections jobId w). c < next_res w)
      \<and> distinct (connections jobId w)
      \<and> finished_last (trace w)
      \<and> (running jobId w \<longrightarrow>
           (\<forall>c\<in>set (connections jobId w). \<not> list_ex (finished_to c) (trace w))))"

text \<open>
  \<open>older_than n w\<close>: the response objects in the trace, in the subscriber set of every
  job and in the array of \<^verbatim>\<open>Object.prototype\<close>, if it has one, are less than \<open>n\<close>.
\<close>

definition older_than :: "nat \<Rightarrow> world \<Rightarrow> bool" where
  "older_than n w =
     ((\<forall>e\<in>set (trace w). conn_of e < n)
      \<and> (\<forall>jobId. \<forall>c\<in>set (connections jobId w). c < n)
      \<and> (\<forall>c\<in>set (case prototype_sseConnections w of None \<Rightarrow> [] | Some conns \<Rightarrow> conns).
            c < n))"

definition replay :: "string \<Rightarrow> int \<Rightarrow> job \<Rightarrow> nat \<Rightarrow> effect list" where
  \<comment> \<open>what \<open>analysis_stream\<close> does to the response object \<open>res\<close> of a new subscriber\<close>
  "replay jobId now job res =
     Wrote res (Started jobId (total_pages job) (length (completed job)))
     # map (\<lambda>result. Wrote res (PageComplete result)) (completed job)
     @ (if status job = StatusFinished
        then [Wrote res (Finished jobId (length (completed job)) (now - startTime job)),
              Ended res]
        else [])"

text \<open>
  \<open>unpolluted w\<close>: \<^verbatim>\<open>Object.prototype\<close> has no property \<^verbatim>\<open>sseConnections\<close>, so every job reads its
  own. Only a request for the event stream of \<^verbatim>\<open>__proto__\<close> ends this; the other requests
  are \<open>ordinary\<close>.
\<close>

definition unpolluted :: "world \<Rightarrow> bool" where
  "unpolluted w = (prototype_sseConnections w = None)"

fun ordinary :: "request \<Rightarrow> bool" where
  "ordinary (Subscribe jobId now) = (jobId \<noteq> ''__proto__'')"
| "ordinary r = True"


section \<open>An environment for concrete instances\<close>

text \<open>
  The concrete instances below need values for the parameters. \<open>demo_new_URL\<close> reads a
  lower-case \<^verbatim>\<open>https\<close> URL with a plain host and a path, where it agrees with the URL
  class of the platform (\<^verbatim>\<open>pathname\<close> is \<^verbatim>\<open>/\<close> for an empty path, \<^verbatim>\<open>origin\<close> is scheme
  and host), and a \<^verbatim>\<open>file\<close> URL with an empty host and a plain path, whose origin is the
  text \<^verbatim>\<open>null\<close>; it rejects a text without such a scheme, such as \<^verbatim>\<open>not a url\<close> or
  \<^verbatim>\<open>null\<close>. \<open>demo_JSON_parse\<close> accepts the empty object and the document with an object
  as its error, and reports the end of the input on the truncated document; the
  instances give it no other text. \<open>demo_toString\<close> and \<open>demo_template\<close> convert an
  object as the platform does for an object read from JSON: its own \<^verbatim>\<open>toString\<close> is no
  function. The instances convert no number and no array. File system and
  subprocesses are set by each instance.
\<close>

definition demo_new_URL :: "string \<Rightarrow> URL option" where
  "demo_new_URL s =
     (if prefix ''https://'' s
      then (let rest = drop 8 s;
                host = takeWhile (\<lambda>c. c \<noteq> CHR ''/'') rest;
                path = dropWhile (\<lambda>c. c \<noteq> CHR ''/'') rest
            in if host = [] then None
               else Some \<lparr>pathname = (if path = [] then ''/'' else path),
                          origin = ''https://'' @ host\<rparr>)
      else if prefix ''file:///'' s
      then Some \<lparr>pathname = drop 7 s, origin = ''null''\<rparr>
      else None)"

definition demo_URL_href :: "string \<Rightarrow> string \<Rightarrow> string option" where
  "demo_URL_href s base =
     (case demo_new_URL base of
        None \<Rightarrow> None
      | Some b \<Rightarrow> Some (origin b @ s))"

definition truncated_document :: string where
  "truncated_document = ''{'' @ [CHR 0x22] @ ''success'' @ [CHR 0x22] @ '':''"

definition empty_document :: string where
  "empty_document = ''{}''"

definition object_error_document :: string where
  \<comment> \<open>\<^verbatim>\<open>{"success":false,"error":{"toString":1}}\<close>\<close>
  "object_error_document =
     ''{'' @ [CHR 0x22] @ ''success'' @ [CHR 0x22] @ '':false,'' @ [CHR 0x22] @ ''error''
     @ [CHR 0x22] @ '':{'' @ [CHR 0x22] @ ''toString'' @ [CHR 0x22] @ '':1}}''"

definition demo_JSON_parse :: "string \<Rightarrow> string + json" where
  "demo_JSON_parse s =
     (if s = empty_document then Inr (JObj [])
      else if s = object_error_document
      then Inr (JObj [(''success'', JBool False), (''error'', JObj [(''toString'', JNum 1)])])
      else Inl ''Unexpected end of JSON input'')"

definition demo_toString :: "string \<Rightarrow> json \<Rightarrow> string + string" where
  "demo_toString expr v =
     (if get_prop v ''toString'' = None then Inr ''[object Object]''
      else Inl (expr @ ''.toString is not a function''))"

definition demo_template :: "json \<Rightarrow> string + string" where
  "demo_template v =
     (if get_prop v ''toString'' = None then Inr ''[object Object]''
      else Inl ''Cannot convert object to primitive value'')"

definition demo_env :: env where
  "demo_env =
     \<lparr>new_URL = demo_new_URL,
      URL_href = demo_URL_href,
      JSON_parse = demo_JSON_parse,
      Number_toString = (\<lambda>r. ''0''),
      Object_toString = demo_toString,
      Object_template = demo_template,
      TypeError_null = (\<lambda>key. ''Cannot read properties of null''),
      path_join = (\<lambda>dir name. dir @ ''/'' @ name),
      path_basename = (\<lambda>p. rev (takeWhile (\<lambda>c. c \<noteq> CHR ''/'') (rev p))),
      pythonPath = ''python'',
      aiScriptPath = ''middleware.py'',
      existsSync = (\<lambda>i p. True),
      spawn = (\<lambda>i program args. Inr (LaunchError ''spawn ENOENT''))\<rparr>"

definition demo_job :: job where
  "demo_job =
     \<lparr>urls = [''https://x.com/'', ''https://x.com/products''],
      headerHeight = None,
      footerHeight = None,
      status = StatusStarted,
      completed = [],
      total_pages = 2,
      startTime = 1000,
      sseConnections = None\<rparr>"

definition demo_world :: world where
  "demo_world =
     \<lparr>analysisJobs = Map.empty(''job1'' \<mapsto> demo_job),
      analysisJobs_defined = True,
      prototype_sseConnections = None,
      function_sseConnections = Map.empty,
      next_res = 0,
      broken = (\<lambda>res. False),
      closeHandlers = [],
      trace = [],
      spawned = []\<rparr>"

definition demo_spawn ::
  "proc_outcome \<Rightarrow> nat \<Rightarrow> string \<Rightarrow> string list \<Rightarrow> string + proc_outcome"
where
  \<comment> \<open>the capture reports the directory \<^verbatim>\<open>/out/x_com\<close>; the analysis ends as \<open>ai_outcome\<close>\<close>
  "demo_spawn ai_outcome i program args =
     (case args of
        [] \<Rightarrow> Inr (LaunchError ''spawn ENOENT'')
      | a # rest \<Rightarrow>
          if a = ''-m'' then Inr (Closed (Some 0) ''Output saved in: /out/x_com'' [])
          else Inr ai_outcome)"

definition header_only :: "nat \<Rightarrow> string \<Rightarrow> bool" where
  \<comment> \<open>a directory that holds the header pair and nothing else\<close>
  "header_only i p = (p = ''/out/x_com/header.png'' \<or> p = ''/out/x_com/header.html'')"

definition body_png_only :: "nat \<Rightarrow> string \<Rightarrow> bool" where
  \<comment> \<open>a directory that holds \<^verbatim>\<open>body.png\<close> and nothing else\<close>
  "body_png_only i p = (p = ''/out/x_com/body.png'')"

definition header_only_env :: env where
  "header_only_env =
     demo_env\<lparr>existsSync := header_only,
               spawn := demo_spawn (Closed (Some 0) empty_document [])\<rparr>"

definition body_png_only_env :: env where
  "body_png_only_env =
     demo_env\<lparr>existsSync := body_png_only,
               spawn := demo_spawn (Closed (Some 0) empty_document [])\<rparr>"

definition truncated_env :: env where
  \<comment> \<open>all files are there; the analysis writes a truncated document and exits with code 0\<close>
  "truncated_env = demo_env\<lparr>spawn := demo_spawn (Closed (Some 0) truncated_document [])\<rparr>"

definition crashed_env :: env where
  \<comment> \<open>all files are there; the analysis writes a truncated document, reports \<^verbatim>\<open>boom\<close> on its
      standard error and exits with code 1\<close>
  "crashed_env = demo_env\<lparr>spawn := demo_spawn (Closed (Some 1) truncated_document ''boom'')\<rparr>"

definition object_error_env :: env where
  \<comment> \<open>all files are there; the analysis reports a failure whose error is an object\<close>
  "object_error_env = demo_env\<lparr>spawn := demo_spawn (Closed (Some 0) object_error_document [])\<rparr>"

definition object_hint_job :: job where
  \<comment> \<open>the demo job with the hints \<^verbatim>\<open>headerHeight: 0\<close> and \<^verbatim>\<open>footerHeight: {"toString": 1}\<close>\<close>
  "object_hint_job =
     demo_job\<lparr>headerHeight := Some (JNum 0),
               footerHeight := Some (JObj [(''toString'', JNum 1)])\<rparr>"

definition two_observers :: world where
  \<comment> \<open>two subscribers of the demo job, the first with a connection whose \<^verbatim>\<open>write\<close> throws\<close>
  "two_observers =
     demo_world\<lparr>analysisJobs := Map.empty(''job1'' \<mapsto> demo_job\<lparr>sseConnections := Some [0, 1]\<rparr>),
                next_res := 2,
                broken := (\<lambda>res. res = 0),
                closeHandlers := [(''job1'', 0), (''job1'', 1)],
                trace := [Wrote 0 (Started ''job1'' 2 0), Wrote 1 (Started ''job1'' 2 0)]\<rparr>"

definition demo_sched :: "nat \<Rightarrow> request list" where
  \<comment> \<open>a subscriber arrives during the first URL; during the second URL another one
      arrives and the connection of the first breaks\<close>
  "demo_sched i =
     (if i = 0 then [Subscribe ''job1'' 1100]
      else if i = 1 then [Subscribe ''job1'' 1200, Break 0]
      else [])"

definition crowd_sched :: "nat \<Rightarrow> request list" where
  \<comment> \<open>three subscribers arrive during the first URL; during the second URL the
      connections of the first two break\<close>
  "crowd_sched i =
     (if i = 0 then [Subscribe ''job1'' 1100, Subscribe ''job1'' 1110, Subscribe ''job1'' 1120]
      else if i = 1 then [Break 0, Break 1]
      else [])"

definition finished_world :: world where
  \<comment> \<open>the server after the demo job has run with the requests of \<open>demo_sched\<close>\<close>
  "finished_world =
     \<lparr>analysisJobs = Map.empty(''job1'' \<mapsto>
        demo_job\<lparr>status := StatusFinished,
                  completed := [Failure ''https://x.com/'' ''Screenshot failed: spawn ENOENT'',
                                Failure ''https://x.com/products''
                                  ''Screenshot failed: spawn ENOENT''],
                  sseConnections := Some []\<rparr>),
      analysisJobs_defined = True,
      prototype_sseConnections = None,
      function_sseConnections = Map.empty,
      next_res = 2,
      broken = (\<lambda>res. res = 0),
      closeHandlers = [(''job1'', 0), (''job1'', 1)],
      trace =
        [Wrote 0 (Started ''job1'' 2 0),
         Wrote 0 (PageComplete (Failure ''https://x.com/'' ''Screenshot failed: spawn ENOENT'')),
         Wrote 1 (Started ''job1'' 2 1),
         Wrote 1 (PageComplete (Failure ''https://x.com/'' ''Screenshot failed: spawn ENOENT'')),
         Wrote 1 (Finished ''job1'' 2 1000),
         Ended 1],
      spawned =
        [(''python'', [''-m'', ''screenshot_urlbox.processor'', ''https://x.com/'']),
         (''python'', [''-m'', ''screenshot_urlbox.processor'', ''https://x.com/products''])]\<rparr>"


section \<open>Properties\<close>

lemmas demo_eval = capture_stage_def capture_run_def demo_env_def demo_job_def
  runPythonScript_def run_spawn_def on_exit_def outputDir_of_def demo_spawn_def
  outputDirMatch_def match_here_def primary_pattern_def lineTerminator_def trim_def
  whiteSpace_def analysisType_of_def isHomePageUrl_def demo_new_URL_def demo_URL_href_def
  homePatterns_def hasFooter_def hasBody_def hasHeader_def runAIAnalysis_def on_ai_exit_def
  screenshotArgs_def height_args_def


subsection \<open>The fallback pattern\<close>

lemma match_here_Nil: "match_here lit [] = None"
  by (simp add: match_here_def)

lemma match_group_suffix:
  "match_here lit s = Some cap \<Longrightarrow> \<exists>cap'. match_group lit (pre @ s) = Some cap'"
proof (induction pre)
  case Nil
  then show ?case
    by (cases s) (simp_all add: match_here_Nil)
next
  case (Cons p pre)
  then show ?case
    by (cases "match_here lit (p # pre @ s)") simp_all
qed

lemma secondary_here_primary_here:
  assumes "match_here secondary_pattern s = Some cap"
  shows "match_here primary_pattern (drop 2 s) = Some cap"
proof -
  from assms have p: "prefix secondary_pattern s"
    by (simp add: match_here_def split: if_splits)
  then obtain r where s: "s = secondary_pattern @ r"
    by (auto simp: prefix_def)
  have d: "drop 2 s = primary_pattern @ r"
    by (simp add: s secondary_pattern_def primary_pattern_def)
  from assms show ?thesis
    unfolding d by (simp add: s match_here_def Let_def split: if_splits)
qed

lemma secondary_implies_primary:
  "match_group secondary_pattern s = Some cap \<Longrightarrow> \<exists>cap'. match_group primary_pattern s = Some cap'"
proof (induction s)
  case Nil
  then show ?case by simp
next
  case (Cons c cs)
  show ?case
  proof (cases "match_here secondary_pattern (c # cs)")
    case None
    with Cons.prems have "match_group secondary_pattern cs = Some cap" by simp
    then obtain cap' where "match_group primary_pattern cs = Some cap'"
      using Cons.IH by blast
    then show ?thesis
      by (cases "match_here primary_pattern (c # cs)") simp_all
  next
    case (Some cap2)
    then have "match_here primary_pattern (drop 2 (c # cs)) = Some cap2"
      by (rule secondary_here_primary_here)
    then have "\<exists>cap'. match_group primary_pattern (take 2 (c # cs) @ drop 2 (c # cs)) = Some cap'"
      by (rule match_group_suffix)
    then show ?thesis by (simp only: append_take_drop_id)
  qed
qed

text \<open>
  C10, as amended. Whenever the secondary pattern \<^verbatim>\<open>/> Output saved in: (.+)/\<close> matches a
  text, the primary pattern \<^verbatim>\<open>/Output saved in: (.+)/\<close> matches it too, so
  \<open>extractOutputDirectory\<close> returns what the primary pattern alone gives and its
  fallback branch is never taken. The two matches need not capture the same text: the
  primary pattern's leftmost match may start before the secondary one's.
\<close>

theorem extractOutputDirectory_fallback_redundant:
  "(match_group secondary_pattern output \<noteq> None \<longrightarrow> match_group primary_pattern output \<noteq> None)
   \<and> extractOutputDirectory output = map_option trim (match_group primary_pattern output)"
proof -
  have a: "match_group secondary_pattern output \<noteq> None \<longrightarrow> match_group primary_pattern output \<noteq> None"
    using secondary_implies_primary by fastforce
  have "extractOutputDirectory output = map_option trim (match_group primary_pattern output)"
  proof (cases "match_group primary_pattern output")
    case None
    with a have "match_group secondary_pattern output = None" by blast
    with None show ?thesis by (simp add: extractOutputDirectory_def)
  next
    case (Some cap)
    then show ?thesis by (simp add: extractOutputDirectory_def)
  qed
  with a show ?thesis by blast
qed

text \<open>
  Witness for C10: an output in the secondary form only; the primary pattern finds the
  directory, and the trailing blank is trimmed.
\<close>

theorem extractOutputDirectory_fallback_redundant_witness:
  "match_group secondary_pattern ''> Output saved in: /tmp/out '' = Some ''/tmp/out ''
   \<and> match_group primary_pattern ''> Output saved in: /tmp/out '' = Some ''/tmp/out ''
   \<and> extractOutputDirectory ''> Output saved in: /tmp/out '' = Some ''/tmp/out''"
  using extractOutputDirectory_fallback_redundant [of "''> Output saved in: /tmp/out ''"]
  by (simp add: match_here_def primary_pattern_def secondary_pattern_def lineTerminator_def
      trim_def whiteSpace_def)

text \<open>
  Counterexample to C10 as stated: on an output with one line in each form, both
  patterns match and they capture different directories.
\<close>

theorem secondary_capture_counterexample:
  "match_group secondary_pattern (''Output saved in: a'' @ [CHR 0x0A] @ ''> Output saved in: b'')
     = Some ''b''
   \<and> match_group primary_pattern (''Output saved in: a'' @ [CHR 0x0A] @ ''> Output saved in: b'')
     = Some ''a''"
  by (simp add: match_here_def primary_pattern_def secondary_pattern_def lineTerminator_def)

subsection \<open>Homepage classification\<close>

lemma homePatterns_loop_True:
  "homePatterns_loop E url org ps = Inr True \<longleftrightarrow>
     (\<exists>k<length ps. URL_href E (ps ! k) org = Some url \<and> (\<forall>j<k. URL_href E (ps ! j) org \<noteq> None))"
proof (induction ps)
  case Nil
  then show ?case by simp
next
  case (Cons p ps)
  show ?case
  proof (cases "URL_href E p org")
    case None
    have "\<not> (\<exists>k<length (p # ps). URL_href E ((p # ps) ! k) org = Some url
              \<and> (\<forall>j<k. URL_href E ((p # ps) ! j) org \<noteq> None))"
    proof
      assume "\<exists>k<length (p # ps). URL_href E ((p # ps) ! k) org = Some url
                \<and> (\<forall>j<k. URL_href E ((p # ps) ! j) org \<noteq> None)"
      then obtain k where k: "URL_href E ((p # ps) ! k) org = Some url"
          "\<forall>j<k. URL_href E ((p # ps) ! j) org \<noteq> None"
        by blast
      show False
      proof (cases k)
        case 0
        with k(1) None show False by simp
      next
        case (Suc n)
        with k(2) have "URL_href E ((p # ps) ! 0) org \<noteq> None" by blast
        with None show False by simp
      qed
    qed
    with None show ?thesis by simp
  next
    case (Some h)
    show ?thesis
    proof (cases "url = h")
      case True
      with Some have "URL_href E ((p # ps) ! 0) org = Some url" by simp
      then have "\<exists>k<length (p # ps). URL_href E ((p # ps) ! k) org = Some url
                   \<and> (\<forall>j<k. URL_href E ((p # ps) ! j) org \<noteq> None)"
        by (intro exI[of _ 0]) simp
      with Some True show ?thesis by simp
    next
      case False
      have "(\<exists>k<length (p # ps). URL_href E ((p # ps) ! k) org = Some url
                \<and> (\<forall>j<k. URL_href E ((p # ps) ! j) org \<noteq> None))
          \<longleftrightarrow> (\<exists>k<length ps. URL_href E (ps ! k) org = Some url
                \<and> (\<forall>j<k. URL_href E (ps ! j) org \<noteq> None))"
        (is "?L \<longleftrightarrow> ?R")
      proof
        assume ?L
        then obtain k where k: "k < length (p # ps)" "URL_href E ((p # ps) ! k) org = Some url"
           "\<forall>j<k. URL_href E ((p # ps) ! j) org \<noteq> None" by blast
        from k(2) Some False obtain n where n: "k = Suc n" by (cases k) auto
        have "\<forall>j<n. URL_href E (ps ! j) org \<noteq> None"
        proof (intro allI impI)
          fix j assume "j < n"
          then have "Suc j < k" using n by simp
          with k(3) have "URL_href E ((p # ps) ! Suc j) org \<noteq> None" by blast
          then show "URL_href E (ps ! j) org \<noteq> None" by simp
        qed
        with k(1,2) n show ?R by auto
      next
        assume ?R
        then obtain k where k: "k < length ps" "URL_href E (ps ! k) org = Some url"
           "\<forall>j<k. URL_href E (ps ! j) org \<noteq> None" by blast
        have "\<forall>j<Suc k. URL_href E ((p # ps) ! j) org \<noteq> None"
        proof (intro allI impI)
          fix j assume "j < Suc k"
          then show "URL_href E ((p # ps) ! j) org \<noteq> None"
            using k(3) Some by (cases j) auto
        qed
        with k(1,2) show ?L by (intro exI[of _ "Suc k"]) simp
      qed
      with Some False Cons.IH show ?thesis by simp
    qed
  qed
qed

lemma homePatterns_loop_False:
  "homePatterns_loop E url org ps = Inr False \<longleftrightarrow>
     (\<forall>p\<in>set ps. \<exists>h. URL_href E p org = Some h \<and> h \<noteq> url)"
  by (induction ps) (auto split: option.splits)

lemma homePatterns_loop_Inl:
  "homePatterns_loop E url org ps = Inl () \<Longrightarrow> \<exists>p\<in>set ps. URL_href E p org = None"
  by (induction ps) (auto split: option.splits if_splits)

lemma homePatterns_loop_cases:
  "homePatterns_loop E url org ps = Inl () \<or> homePatterns_loop E url org ps = Inr True
   \<or> homePatterns_loop E url org ps = Inr False"
  by (cases "homePatterns_loop E url org ps") auto

text \<open>
  C1, as amended. A URL of a batch is classified as homepage, and gets the role \<^verbatim>\<open>all\<close>
  (full), exactly when it parses and either its path is \<^verbatim>\<open>/\<close>, empty, \<^verbatim>\<open>/index.html\<close> or
  \<^verbatim>\<open>/home\<close>, or the batch has more than one URL and, \<^verbatim>\<open>/\<close>, \<^verbatim>\<open>/index.html\<close>, \<^verbatim>\<open>/home\<close> and
  \<^verbatim>\<open>/index.php\<close> being resolved in this order against the origin of the URL, either the
  URL is equal to one of the resolved addresses and no resolution before that one
  throws, or all four resolutions succeed and the URL is equal to the first URL of the
  batch, whether or not another URL of the batch has a homepage path. So a URL against
  whose origin the four do not resolve (a \<^verbatim>\<open>file\<close> URL, whose origin is the text \<^verbatim>\<open>null\<close>)
  is a homepage by its path only. Every other URL gets the role \<^verbatim>\<open>body\<close> (body-only).
\<close>

theorem homepage_role_characterised:
  "analysisType_of E url allUrls = (if isHomePageUrl E url allUrls then ''all'' else ''body'')
   \<and> (isHomePageUrl E url allUrls \<longleftrightarrow>
        (\<exists>u. new_URL E url = Some u \<and>
           (pathname u = ''/'' \<or> pathname u = '''' \<or> pathname u = ''/index.html''
            \<or> pathname u = ''/home''
            \<or> (1 < length allUrls \<and>
                ((\<exists>k<length homePatterns. URL_href E (homePatterns ! k) (origin u) = Some url
                      \<and> (\<forall>j<k. URL_href E (homePatterns ! j) (origin u) \<noteq> None))
                 \<or> ((\<forall>p\<in>set homePatterns. URL_href E p (origin u) \<noteq> None)
                     \<and> url = allUrls ! 0))))))"
proof -
  have "isHomePageUrl E url allUrls \<longleftrightarrow>
        (\<exists>u. new_URL E url = Some u \<and>
           (pathname u = ''/'' \<or> pathname u = '''' \<or> pathname u = ''/index.html''
            \<or> pathname u = ''/home''
            \<or> (1 < length allUrls \<and>
                ((\<exists>k<length homePatterns. URL_href E (homePatterns ! k) (origin u) = Some url
                      \<and> (\<forall>j<k. URL_href E (homePatterns ! j) (origin u) \<noteq> None))
                 \<or> ((\<forall>p\<in>set homePatterns. URL_href E p (origin u) \<noteq> None)
                     \<and> url = allUrls ! 0)))))"
  proof (cases "new_URL E url")
    case None
    then show ?thesis by (simp add: isHomePageUrl_def)
  next
    case (Some u)
    let ?lp = "homePatterns_loop E url (origin u) homePatterns"
    let ?T = "\<exists>k<length homePatterns. URL_href E (homePatterns ! k) (origin u) = Some url
                      \<and> (\<forall>j<k. URL_href E (homePatterns ! j) (origin u) \<noteq> None)"
    let ?A = "\<forall>p\<in>set homePatterns. URL_href E p (origin u) \<noteq> None"
    have T: "?lp = Inr True \<longleftrightarrow> ?T" by (rule homePatterns_loop_True)
    have F: "?lp = Inr False \<longleftrightarrow>
        (\<forall>p\<in>set homePatterns. \<exists>h. URL_href E p (origin u) = Some h \<and> h \<noteq> url)"
      by (rule homePatterns_loop_False)
    have FA: "?lp = Inr False \<Longrightarrow> ?A" using F by fastforce
    have AT: "?A \<Longrightarrow> ?lp \<noteq> Inr False \<Longrightarrow> ?lp = Inr True"
    proof -
      assume a: ?A and nf: "?lp \<noteq> Inr False"
      have "?lp \<noteq> Inl ()"
        using a homePatterns_loop_Inl[of E url "origin u" homePatterns] by blast
      with nf homePatterns_loop_cases[of E url "origin u" homePatterns]
      show "?lp = Inr True" by blast
    qed
    have key: "(case ?lp of Inl _ \<Rightarrow> False | Inr True \<Rightarrow> True | Inr False \<Rightarrow> url = allUrls ! 0)
         \<longleftrightarrow> (?T \<or> (?A \<and> url = allUrls ! 0))"
      using homePatterns_loop_cases[of E url "origin u" homePatterns] T FA AT
      by (auto split: sum.splits bool.splits)
    show ?thesis
      using Some key by (simp add: isHomePageUrl_def)
  qed
  then show ?thesis by (simp add: analysisType_of_def)
qed

text \<open>
  Witness for C1: in a batch of two, \<^verbatim>\<open>https://x.com/index.php\<close> comes second and its path
  is none of the four, yet it is the address of \<^verbatim>\<open>/index.php\<close> at its origin and is
  classified as homepage.
\<close>

theorem homepage_role_characterised_witness:
  "map_option pathname (new_URL demo_env ''https://x.com/index.php'') = Some ''/index.php''
   \<and> isHomePageUrl demo_env ''https://x.com/index.php''
        [''https://x.com/'', ''https://x.com/index.php'']
   \<and> analysisType_of demo_env ''https://x.com/index.php''
        [''https://x.com/'', ''https://x.com/index.php''] = ''all''"
  using homepage_role_characterised [of demo_env "''https://x.com/index.php''"
      "[''https://x.com/'', ''https://x.com/index.php'']"]
  by (simp add: analysisType_of_def isHomePageUrl_def demo_env_def demo_new_URL_def
      demo_URL_href_def homePatterns_def)

text \<open>
  Counterexample to C1 as stated: the batch holds a URL with the homepage path \<^verbatim>\<open>/\<close>, and
  its first URL, whose path is \<^verbatim>\<open>/products\<close>, is classified as homepage all the same and
  gets the full role.
\<close>

theorem first_url_homepage_counterexample:
  "map_option pathname (new_URL demo_env ''https://x.com/products'') = Some ''/products''
   \<and> map_option pathname (new_URL demo_env ''https://x.com/'') = Some ''/''
   \<and> isHomePageUrl demo_env ''https://x.com/products''
        [''https://x.com/products'', ''https://x.com/'']
   \<and> analysisType_of demo_env ''https://x.com/products''
        [''https://x.com/products'', ''https://x.com/''] = ''all''"
  by (simp add: analysisType_of_def isHomePageUrl_def demo_env_def demo_new_URL_def
      demo_URL_href_def homePatterns_def)

text \<open>
  The resolution of the four addresses matters: the first URL of this batch of two is a
  \<^verbatim>\<open>file\<close> URL with the path \<^verbatim>\<open>/products\<close>. Nothing resolves against its origin \<^verbatim>\<open>null\<close>, the
  exception is caught, and the URL is not classified as homepage.
\<close>

lemma file_url_first_not_homepage:
  "map_option origin (new_URL demo_env ''file:///products'') = Some ''null''
   \<and> map_option pathname (new_URL demo_env ''file:///products'') = Some ''/products''
   \<and> URL_href demo_env ''/'' ''null'' = None
   \<and> \<not> isHomePageUrl demo_env ''file:///products''
          [''file:///products'', ''https://x.com/about'']
   \<and> analysisType_of demo_env ''file:///products''
        [''file:///products'', ''https://x.com/about''] = ''body''"
  by (simp add: analysisType_of_def isHomePageUrl_def demo_env_def demo_new_URL_def
      demo_URL_href_def homePatterns_def)

text \<open>
  C9. A URL string that does not parse is never classified as homepage: the exception
  of \<^verbatim>\<open>new URL\<close> is caught and the answer is \<^verbatim>\<open>false\<close>, so the URL gets the role \<^verbatim>\<open>body\<close>
  whatever the batch is, also when it is the first URL of a batch of several.
\<close>

theorem invalid_url_body_only:
  "new_URL E url = None \<Longrightarrow>
     \<not> isHomePageUrl E url allUrls \<and> analysisType_of E url allUrls = ''body''"
  by (simp add: isHomePageUrl_def analysisType_of_def)

theorem invalid_url_body_only_witness:
  "new_URL demo_env ''not a url'' = None
   \<and> \<not> isHomePageUrl demo_env ''not a url'' [''not a url'', ''https://x.com/about'']
   \<and> analysisType_of demo_env ''not a url'' [''not a url'', ''https://x.com/about''] = ''body''"
proof -
  have h: "new_URL demo_env ''not a url'' = None"
    by (simp add: demo_env_def demo_new_URL_def)
  from invalid_url_body_only [OF h] h show ?thesis by simp
qed


subsection \<open>The pipeline of one URL\<close>

lemma runPythonScript_spawn:
  "runPythonScript E i moduleName args =
     ([(pythonPath E, ''-m'' # moduleName # args)],
      (case spawn E i (pythonPath E) (''-m'' # moduleName # args) of
         Inl message \<Rightarrow> Inl message
       | Inr outcome \<Rightarrow> Inr (on_exit E outcome)))"
  by (simp add: runPythonScript_def run_spawn_def split: sum.splits)

lemma capture_run_args:
  "screenshotArgs E job url = Inr args \<Longrightarrow>
   capture_run E job i url =
     ([(pythonPath E, ''-m'' # ''screenshot_urlbox.processor'' # args)],
      (case spawn E i (pythonPath E) (''-m'' # ''screenshot_urlbox.processor'' # args) of
         Inl message \<Rightarrow> Inl message
       | Inr outcome \<Rightarrow> outputDir_of (on_exit E outcome)))"
  by (simp add: capture_run_def runPythonScript_spawn split: sum.splits)

lemma capture_run_thrown:
  "screenshotArgs E job url = Inl message \<Longrightarrow> capture_run E job i url = ([], Inl message)"
  by (simp add: capture_run_def)

lemma capture_stage_args:
  "capture_stage E job i url = Inr outputDir \<Longrightarrow> \<exists>args. screenshotArgs E job url = Inr args"
  by (cases "screenshotArgs E job url") (simp_all add: capture_stage_def capture_run_def)

lemma try_block_thrown:
  "screenshotArgs E job url = Inl message \<Longrightarrow> try_block E job i url = ([], Inl message)"
  by (simp add: try_block_def capture_run_thrown)

lemma try_block_fst:
  "fst (try_block E job i url) =
     fst (capture_run E job i url)
     @ (case capture_stage E job i url of
          Inl message \<Rightarrow> []
        | Inr outputDir \<Rightarrow>
            fst (runAIAnalysis E i outputDir url (analysisType_of E url (urls job))))"
  by (auto simp: try_block_def capture_stage_def Let_def split: sum.splits prod.splits)

lemma try_block_snd:
  "capture_stage E job i url = Inr outputDir \<Longrightarrow>
   snd (try_block E job i url) =
     (let aiResult = snd (runAIAnalysis E i outputDir url (analysisType_of E url (urls job)))
      in if truthy_opt (ai_error aiResult)
         then (case template_json E (ai_error aiResult) of
                 Inl message \<Rightarrow> Inl message
               | Inr s \<Rightarrow> Inl (''AI analysis failed: '' @ s))
         else Inr (assemble url (path_basename E outputDir) (analysisType_of E url (urls job))
                     (analysis aiResult)))"
  by (auto simp: try_block_def capture_stage_def Let_def split: sum.splits prod.splits)

lemma runAIAnalysis_missing:
  assumes "analysisType = ''all'' \<and> \<not> hasHeader E i outputDir \<and> \<not> hasFooter E i outputDir
         \<or> analysisType = ''body'' \<and> \<not> hasBody E i outputDir"
  shows "runAIAnalysis E i outputDir url analysisType =
      ([], \<lparr>analysis = None, ai_error = Some (JStr (if analysisType = ''all''
               then ''No header or footer files found for full analysis''
               else ''No body files found for body analysis''))\<rparr>)"
  using assms by (auto simp: runAIAnalysis_def)

lemma runAIAnalysis_invoked:
  assumes "\<not> (analysisType = ''all'' \<and> \<not> hasHeader E i outputDir \<and> \<not> hasFooter E i outputDir
         \<or> analysisType = ''body'' \<and> \<not> hasBody E i outputDir)"
  shows "runAIAnalysis E i outputDir url analysisType =
      ([(pythonPath E, [aiScriptPath E, outputDir, url, analysisType])],
       (case spawn E i (pythonPath E) [aiScriptPath E, outputDir, url, analysisType] of
          Inl message \<Rightarrow> \<lparr>analysis = None, ai_error = Some (JStr message)\<rparr>
        | Inr outcome \<Rightarrow> on_ai_exit E outcome))"
  using assms by (auto simp: runAIAnalysis_def run_spawn_def split: sum.splits)

lemma role_cases:
  "analysisType_of E url us = ''all'' \<or> analysisType_of E url us = ''body''"
  by (simp add: analysisType_of_def)

lemma screenshotArgs_cong:
  assumes "headerHeight a = headerHeight b" and "footerHeight a = footerHeight b"
  shows "screenshotArgs E a url = screenshotArgs E b url"
  unfolding screenshotArgs_def assms ..

lemma try_block_cong:
  assumes "urls a = urls b" and "screenshotArgs E a url = screenshotArgs E b url"
  shows "try_block E a i url = try_block E b i url"
proof -
  have "capture_run E a i url = capture_run E b i url"
    by (simp add: capture_run_def assms(2))
  then show ?thesis
    unfolding try_block_def assms(1) by simp
qed

lemma height_args_falsy: "\<not> truthy_opt h \<Longrightarrow> height_args E flag expr h = Inr []"
  by (cases h) (simp_all add: height_args_def)

text \<open>
  C8, as amended. A height hint that is 0, or falsy in any other way, is treated as
  absent: with a falsy \<open>headerHeight\<close> (and in the same way with a falsy \<open>footerHeight\<close>)
  the \<^verbatim>\<open>try\<close> block of every URL runs as it does for the job without that hint, and
  the argument list of the capture is the URL followed by the arguments of the other
  hint only, if that hint is truthy and its conversion to a string returns. When the
  argument list is built, the capture is the first subprocess started for the URL, it
  is started with exactly this list, and what \<^verbatim>\<open>spawn\<close> throws or how the subprocess ends
  is what the block goes on with.
  When the conversion of the other hint throws, no subprocess is started for the URL at
  all, and the URL gets the Failure with the message of that TypeError.
\<close>

theorem falsy_height_hint_dropped:
  "(\<not> truthy_opt (headerHeight job) \<longrightarrow>
      try_block E job i url = try_block E (job\<lparr>headerHeight := None\<rparr>) i url
      \<and> screenshotArgs E job url =
          (case footerHeight job of
             None \<Rightarrow> Inr [url]
           | Some h \<Rightarrow>
               if truthy h
               then (case toString_call E ''job.footerHeight'' h of
                       Inl message \<Rightarrow> Inl message
                     | Inr s \<Rightarrow> Inr [url, ''--footer-height'', s])
               else Inr [url]))
   \<and> (\<not> truthy_opt (footerHeight job) \<longrightarrow>
      try_block E job i url = try_block E (job\<lparr>footerHeight := None\<rparr>) i url
      \<and> screenshotArgs E job url =
          (case headerHeight job of
             None \<Rightarrow> Inr [url]
           | Some h \<Rightarrow>
               if truthy h
               then (case toString_call E ''job.headerHeight'' h of
                       Inl message \<Rightarrow> Inl message
                     | Inr s \<Rightarrow> Inr [url, ''--header-height'', s])
               else Inr [url]))
   \<and> \<not> truthy_opt (Some (JNum 0))
   \<and> (\<forall>args. screenshotArgs E job url = Inr args \<longrightarrow>
         capture_run E job i url =
           ([(pythonPath E, ''-m'' # ''screenshot_urlbox.processor'' # args)],
            (case spawn E i (pythonPath E) (''-m'' # ''screenshot_urlbox.processor'' # args) of
               Inl message \<Rightarrow> Inl message
             | Inr outcome \<Rightarrow> outputDir_of (on_exit E outcome)))
         \<and> (\<exists>rest. fst (try_block E job i url) =
                (pythonPath E, ''-m'' # ''screenshot_urlbox.processor'' # args) # rest))
   \<and> (\<forall>message. screenshotArgs E job url = Inl message \<longrightarrow>
         try_block E job i url = ([], Inl message)
         \<and> (url = urls job ! i \<longrightarrow> page_result_of E job i = Failure url message))"
proof -
  have a: "try_block E job i url = try_block E (job\<lparr>headerHeight := None\<rparr>) i url
      \<and> screenshotArgs E job url =
          (case footerHeight job of
             None \<Rightarrow> Inr [url]
           | Some h \<Rightarrow>
               if truthy h
               then (case toString_call E ''job.footerHeight'' h of
                       Inl message \<Rightarrow> Inl message
                     | Inr s \<Rightarrow> Inr [url, ''--footer-height'', s])
               else Inr [url])" if "\<not> truthy_opt (headerHeight job)"
  proof -
    have s: "screenshotArgs E job url = screenshotArgs E (job\<lparr>headerHeight := None\<rparr>) url"
      using that by (simp add: screenshotArgs_def height_args_falsy)
    have "try_block E job i url = try_block E (job\<lparr>headerHeight := None\<rparr>) i url"
      by (rule try_block_cong) (simp_all add: s)
    moreover have "screenshotArgs E job url =
          (case footerHeight job of
             None \<Rightarrow> Inr [url]
           | Some h \<Rightarrow>
               if truthy h
               then (case toString_call E ''job.footerHeight'' h of
                       Inl message \<Rightarrow> Inl message
                     | Inr s \<Rightarrow> Inr [url, ''--footer-height'', s])
               else Inr [url])"
      using that
      by (simp add: screenshotArgs_def height_args_falsy)
         (simp add: height_args_def split: option.splits sum.splits)
    ultimately show ?thesis by simp
  qed
  have b: "try_block E job i url = try_block E (job\<lparr>footerHeight := None\<rparr>) i url
      \<and> screenshotArgs E job url =
          (case headerHeight job of
             None \<Rightarrow> Inr [url]
           | Some h \<Rightarrow>
               if truthy h
               then (case toString_call E ''job.headerHeight'' h of
                       Inl message \<Rightarrow> Inl message
                     | Inr s \<Rightarrow> Inr [url, ''--header-height'', s])
               else Inr [url])" if "\<not> truthy_opt (footerHeight job)"
  proof -
    have s: "screenshotArgs E job url = screenshotArgs E (job\<lparr>footerHeight := None\<rparr>) url"
      using that by (simp add: screenshotArgs_def height_args_falsy split: sum.splits)
    have "try_block E job i url = try_block E (job\<lparr>footerHeight := None\<rparr>) i url"
      by (rule try_block_cong) (simp_all add: s)
    moreover have "screenshotArgs E job url =
          (case headerHeight job of
             None \<Rightarrow> Inr [url]
           | Some h \<Rightarrow>
               if truthy h
               then (case toString_call E ''job.headerHeight'' h of
                       Inl message \<Rightarrow> Inl message
                     | Inr s \<Rightarrow> Inr [url, ''--header-height'', s])
               else Inr [url])"
      using that
      by (simp add: screenshotArgs_def height_args_falsy split: sum.splits)
         (simp add: height_args_def split: option.splits sum.splits)
    ultimately show ?thesis by simp
  qed
  have c: "\<not> truthy_opt (Some (JNum 0))" by simp
  have d: "capture_run E job i url =
           ([(pythonPath E, ''-m'' # ''screenshot_urlbox.processor'' # args)],
            (case spawn E i (pythonPath E) (''-m'' # ''screenshot_urlbox.processor'' # args) of
               Inl message \<Rightarrow> Inl message
             | Inr outcome \<Rightarrow> outputDir_of (on_exit E outcome)))
         \<and> (\<exists>rest. fst (try_block E job i url) =
                (pythonPath E, ''-m'' # ''screenshot_urlbox.processor'' # args) # rest)"
    if "screenshotArgs E job url = Inr args" for args
    using capture_run_args [OF that, of i] by (simp add: try_block_fst)
  have e: "try_block E job i url = ([], Inl message)
         \<and> (url = urls job ! i \<longrightarrow> page_result_of E job i = Failure url message)"
    if "screenshotArgs E job url = Inl message" for message
    using try_block_thrown [OF that, of i] by (auto simp: page_result_of_def)
  from a b c d e show ?thesis by blast
qed

text \<open>
  Witness for C8: a header height of 0 and a footer height of \<^verbatim>\<open>"120"\<close>; the capture does
  not launch.
\<close>

theorem falsy_height_hint_dropped_witness:
  "\<not> truthy_opt (headerHeight (demo_job\<lparr>headerHeight := Some (JNum 0),
                                          footerHeight := Some (JStr ''120'')\<rparr>))
   \<and> screenshotArgs demo_env
        (demo_job\<lparr>headerHeight := Some (JNum 0), footerHeight := Some (JStr ''120'')\<rparr>)
        ''https://x.com/''
      = Inr [''https://x.com/'', ''--footer-height'', ''120'']
   \<and> try_block demo_env
        (demo_job\<lparr>headerHeight := Some (JNum 0), footerHeight := Some (JStr ''120'')\<rparr>)
        0 ''https://x.com/''
      = try_block demo_env
          (demo_job\<lparr>headerHeight := Some (JNum 0), footerHeight := Some (JStr ''120''),
                    headerHeight := None\<rparr>)
          0 ''https://x.com/''
   \<and> fst (capture_run demo_env
             (demo_job\<lparr>headerHeight := Some (JNum 0), footerHeight := Some (JStr ''120'')\<rparr>)
             0 ''https://x.com/'')
      = [(''python'', [''-m'', ''screenshot_urlbox.processor'', ''https://x.com/'',
                       ''--footer-height'', ''120''])]"
proof -
  let ?job = "demo_job\<lparr>headerHeight := Some (JNum 0), footerHeight := Some (JStr ''120'')\<rparr>"
  have h: "\<not> truthy_opt (headerHeight ?job)" by simp
  note t = falsy_height_hint_dropped [of ?job demo_env 0 "''https://x.com/''"]
  from t h have s: "screenshotArgs demo_env ?job ''https://x.com/''
      = Inr [''https://x.com/'', ''--footer-height'', ''120'']"
    by simp
  from t h have b: "try_block demo_env ?job 0 ''https://x.com/''
      = try_block demo_env (?job\<lparr>headerHeight := None\<rparr>) 0 ''https://x.com/''"
    by blast
  from t s have "capture_run demo_env ?job 0 ''https://x.com/'' =
           ([(pythonPath demo_env,
              ''-m'' # ''screenshot_urlbox.processor''
              # [''https://x.com/'', ''--footer-height'', ''120''])],
            (case spawn demo_env 0 (pythonPath demo_env)
                    (''-m'' # ''screenshot_urlbox.processor''
                     # [''https://x.com/'', ''--footer-height'', ''120'']) of
               Inl message \<Rightarrow> Inl message
             | Inr outcome \<Rightarrow> outputDir_of (on_exit demo_env outcome)))"
    by blast
  then have c: "fst (capture_run demo_env ?job 0 ''https://x.com/'')
      = [(''python'', [''-m'', ''screenshot_urlbox.processor'', ''https://x.com/'',
                       ''--footer-height'', ''120''])]"
    by (simp add: demo_env_def)
  from h s b c show ?thesis by simp
qed

text \<open>
  Counterexample to C8 as stated: the header height is 0 and the footer height is the
  object \<^verbatim>\<open>{"toString": 1}\<close>, which is truthy. The call of \<^verbatim>\<open>toString\<close> on it throws before
  the capture is started: for this job the capture subprocess is not invoked at all, and
  the URL gets a Failure.
\<close>

theorem hint_conversion_throws_counterexample:
  "\<not> truthy_opt (headerHeight object_hint_job)
   \<and> urls object_hint_job ! 0 = ''https://x.com/''
   \<and> fst (try_block demo_env object_hint_job 0 ''https://x.com/'') = []
   \<and> page_result_of demo_env object_hint_job 0 =
       Failure ''https://x.com/'' ''job.footerHeight.toString is not a function''"
  by (simp add: page_result_of_def try_block_def capture_run_def screenshotArgs_def
      height_args_def object_hint_job_def demo_job_def demo_env_def demo_toString_def)


text \<open>
  C5, as amended. Once the capture of a URL has given an output directory, the role
  \<^verbatim>\<open>all\<close> (full) requires the header pair or the footer pair of image and markup to
  exist (one of the two is enough, and the body pair is not looked at), and the role
  \<^verbatim>\<open>body\<close> (body-only) requires the body pair. When the requirement is not met the URL
  yields a Failure whose message names the missing files, and the capture is the only
  subprocess started for the URL; when it is met the analysis subprocess is started.
\<close>

theorem required_files_checked:
  assumes "capture_stage E job i (urls job ! i) = Inr outputDir"
  shows "\<exists>args. screenshotArgs E job (urls job ! i) = Inr args
       \<and> ((if analysisType_of E (urls job ! i) (urls job) = ''all''
            then \<not> hasHeader E i outputDir \<and> \<not> hasFooter E i outputDir
            else \<not> hasBody E i outputDir)
           \<longrightarrow> page_result_of E job i =
                 Failure (urls job ! i)
                   (''AI analysis failed: '' @
                      (if analysisType_of E (urls job ! i) (urls job) = ''all''
                       then ''No header or footer files found for full analysis''
                       else ''No body files found for body analysis''))
               \<and> fst (try_block E job i (urls job ! i)) =
                   [(pythonPath E, ''-m'' # ''screenshot_urlbox.processor'' # args)])
       \<and> (\<not> (if analysisType_of E (urls job ! i) (urls job) = ''all''
                then \<not> hasHeader E i outputDir \<and> \<not> hasFooter E i outputDir
                else \<not> hasBody E i outputDir)
           \<longrightarrow> fst (try_block E job i (urls job ! i)) =
                 [(pythonPath E, ''-m'' # ''screenshot_urlbox.processor'' # args),
                  (pythonPath E, [aiScriptPath E, outputDir, urls job ! i,
                                  analysisType_of E (urls job ! i) (urls job)])])"
proof -
  let ?url = "urls job ! i"
  let ?role = "analysisType_of E ?url (urls job)"
  let ?missing = "if ?role = ''all'' then \<not> hasHeader E i outputDir \<and> \<not> hasFooter E i outputDir
                  else \<not> hasBody E i outputDir"
  let ?m = "?role = ''all'' \<and> \<not> hasHeader E i outputDir \<and> \<not> hasFooter E i outputDir
         \<or> ?role = ''body'' \<and> \<not> hasBody E i outputDir"
  from capture_stage_args [OF assms] obtain args where args: "screenshotArgs E job ?url = Inr args"
    by blast
  have cap: "fst (capture_run E job i ?url) =
      [(pythonPath E, ''-m'' # ''screenshot_urlbox.processor'' # args)]"
    by (simp add: capture_run_args [OF args])
  have eq: "?missing \<longleftrightarrow> ?m"
    using role_cases [of E ?url "urls job"] by (auto split: if_splits)
  have a: "page_result_of E job i =
                Failure ?url (''AI analysis failed: '' @
                     (if ?role = ''all''
                      then ''No header or footer files found for full analysis''
                      else ''No body files found for body analysis''))
              \<and> fst (try_block E job i ?url) =
                  [(pythonPath E, ''-m'' # ''screenshot_urlbox.processor'' # args)]" if "?missing"
  proof -
    from that eq have ?m by blast
    from runAIAnalysis_missing [OF this, of ?url] assms cap show ?thesis
      by (simp add: page_result_of_def try_block_fst try_block_snd)
  qed
  have b: "fst (try_block E job i ?url) =
                [(pythonPath E, ''-m'' # ''screenshot_urlbox.processor'' # args),
                 (pythonPath E, [aiScriptPath E, outputDir, ?url, ?role])]" if "\<not> ?missing"
  proof -
    from that eq have "\<not> ?m" by blast
    from runAIAnalysis_invoked [OF this, of ?url] assms cap show ?thesis
      by (simp add: try_block_fst)
  qed
  from args a b show ?thesis by blast
qed

lemma body_png_only_capture:
  "capture_stage body_png_only_env demo_job 1 (urls demo_job ! 1) = Inr ''/out/x_com''"
  by (simp add: body_png_only_env_def demo_eval)

lemma body_png_only_role:
  "analysisType_of body_png_only_env (urls demo_job ! 1) (urls demo_job) = ''body''"
  by (simp add: body_png_only_env_def demo_eval)

lemma body_png_only_files:
  "existsSync body_png_only_env 1 ''/out/x_com/body.png''
   \<and> \<not> hasBody body_png_only_env 1 ''/out/x_com''"
  by (simp add: body_png_only_env_def demo_env_def hasBody_def body_png_only_def)

text \<open>
  Witness for C5: \<^verbatim>\<open>body.png\<close> exists and \<^verbatim>\<open>body.html\<close> does not, for the second URL of the
  demo job, whose role is \<^verbatim>\<open>body\<close>.
\<close>

theorem required_files_checked_witness:
  "existsSync body_png_only_env 1 ''/out/x_com/body.png''
   \<and> page_result_of body_png_only_env demo_job 1 =
       Failure ''https://x.com/products''
         ''AI analysis failed: No body files found for body analysis''
   \<and> fst (try_block body_png_only_env demo_job 1 ''https://x.com/products'') =
       [(''python'', [''-m'', ''screenshot_urlbox.processor'', ''https://x.com/products''])]"
  using required_files_checked [OF body_png_only_capture] body_png_only_role body_png_only_files
  by (simp add: demo_job_def screenshotArgs_def height_args_def body_png_only_env_def
      demo_env_def)

text \<open>
  Counterexample to C5 as stated: the URL has the role \<^verbatim>\<open>all\<close>, its output directory holds
  the header pair only (no footer pair, no body pair), and the analysis subprocess is
  started all the same.
\<close>

theorem full_role_files_counterexample:
  "analysisType_of header_only_env ''https://x.com/'' (urls demo_job) = ''all''
   \<and> capture_stage header_only_env demo_job 0 ''https://x.com/'' = Inr ''/out/x_com''
   \<and> \<not> hasFooter header_only_env 0 ''/out/x_com''
   \<and> \<not> hasBody header_only_env 0 ''/out/x_com''
   \<and> fst (try_block header_only_env demo_job 0 ''https://x.com/'')
      = [(''python'', [''-m'', ''screenshot_urlbox.processor'', ''https://x.com/'']),
         (''python'', [''middleware.py'', ''/out/x_com'', ''https://x.com/'', ''all''])]"
  by (simp add: try_block_fst header_only_env_def header_only_def demo_eval)

text \<open>
  C7, as amended. When the raw text does not parse as JSON, \<open>parseProcessOutput\<close> returns
  the object \<^verbatim>\<open>{success: false, error, raw_output}\<close>, its error built from the parser's
  message and its raw output the first 200 characters, instead of raising. In the
  pipeline, when the analysis subprocess of a URL has been started (the capture gave
  an output directory that holds the required files) and has written a text that does
  not parse, the URL yields a Failure: when the subprocess has exited with code 0 the
  message names the parse failure; with any other exit code the output is not parsed,
  and the message is what the subprocess wrote to its standard error or, when that is
  empty, the exit code. The call of the analysis is among the calls of \<^verbatim>\<open>spawn\<close> made for
  the URL.
\<close>

theorem malformed_json_downgraded:
  assumes "JSON_parse E raw = Inl message"
  shows "parseProcessOutput E raw context =
           JObj [(''success'', JBool False),
                 (''error'', JStr (''Failed to parse '' @ context @ '' response: '' @ message)),
                 (''raw_output'', JStr (take 200 raw))]
       \<and> (capture_stage E job i (urls job ! i) = Inr outputDir
           \<and> \<not> (if analysisType_of E (urls job ! i) (urls job) = ''all''
                  then \<not> hasHeader E i outputDir \<and> \<not> hasFooter E i outputDir
                  else \<not> hasBody E i outputDir)
           \<and> spawn E i (pythonPath E) [aiScriptPath E, outputDir, urls job ! i,
                                       analysisType_of E (urls job ! i) (urls job)]
               = Inr (Closed code raw stderr)
           \<longrightarrow> page_result_of E job i =
                 Failure (urls job ! i)
                   (''AI analysis failed: '' @
                      (if code = Some 0
                       then ''Failed to parse AI response: '' @ message
                            @ ''. Raw output: '' @ take 200 raw
                       else if stderr \<noteq> [] then stderr
                       else ''AI analysis failed with code '' @ code_String E code))
               \<and> (pythonPath E, [aiScriptPath E, outputDir, urls job ! i,
                                  analysisType_of E (urls job ! i) (urls job)])
                   \<in> set (fst (try_block E job i (urls job ! i))))"
proof -
  let ?url = "urls job ! i"
  let ?role = "analysisType_of E ?url (urls job)"
  let ?missing = "if ?role = ''all'' then \<not> hasHeader E i outputDir \<and> \<not> hasFooter E i outputDir
                  else \<not> hasBody E i outputDir"
  let ?text = "if code = Some 0
               then ''Failed to parse AI response: '' @ message @ ''. Raw output: '' @ take 200 raw
               else if stderr \<noteq> [] then stderr
               else ''AI analysis failed with code '' @ code_String E code"
  have a: "parseProcessOutput E raw context =
           JObj [(''success'', JBool False),
                 (''error'', JStr (''Failed to parse '' @ context @ '' response: '' @ message)),
                 (''raw_output'', JStr (take 200 raw))]"
    using assms by (simp add: parseProcessOutput_def substring_def)
  have b: "page_result_of E job i = Failure ?url (''AI analysis failed: '' @ ?text)
           \<and> (pythonPath E, [aiScriptPath E, outputDir, ?url, ?role])
               \<in> set (fst (try_block E job i ?url))"
    if c: "capture_stage E job i ?url = Inr outputDir"
    and f: "\<not> ?missing"
    and s: "spawn E i (pythonPath E) [aiScriptPath E, outputDir, ?url, ?role]
               = Inr (Closed code raw stderr)"
  proof -
    have inv: "\<not> (?role = ''all'' \<and> \<not> hasHeader E i outputDir \<and> \<not> hasFooter E i outputDir
         \<or> ?role = ''body'' \<and> \<not> hasBody E i outputDir)"
      using f role_cases [of E ?url "urls job"] by (auto split: if_splits)
    note r = runAIAnalysis_invoked [OF inv, of ?url]
    have e: "ai_error (snd (runAIAnalysis E i outputDir ?url ?role)) = Some (JStr ?text)"
      unfolding r using s assms
      by (simp add: on_ai_exit_def on_ai_stdout_def parse_failed_def substring_def)
    have n: "?text \<noteq> []" by simp
    have p: "page_result_of E job i = Failure ?url (''AI analysis failed: '' @ ?text)"
      using c e n by (simp add: page_result_of_def try_block_snd Let_def)
    have q: "(pythonPath E, [aiScriptPath E, outputDir, ?url, ?role])
               \<in> set (fst (try_block E job i ?url))"
      using c by (simp add: try_block_fst r)
    from p q show ?thesis by blast
  qed
  from a b show ?thesis by blast
qed

lemma truncated_document_fails:
  "JSON_parse truncated_env truncated_document = Inl ''Unexpected end of JSON input''"
  by (simp add: truncated_env_def demo_env_def demo_JSON_parse_def truncated_document_def
      empty_document_def object_error_document_def)

text \<open>
  Witness for C7: the analysis of the first URL of the demo job writes the truncated
  document \<^verbatim>\<open>{"success":\<close> and exits with code 0.
\<close>

theorem malformed_json_downgraded_witness:
  "JSON_parse truncated_env truncated_document = Inl ''Unexpected end of JSON input''
   \<and> spawn truncated_env 0 ''python''
        [''middleware.py'', ''/out/x_com'', ''https://x.com/'', ''all'']
        = Inr (Closed (Some 0) truncated_document [])
   \<and> parseProcessOutput truncated_env truncated_document ''Python process'' =
        JObj [(''success'', JBool False),
              (''error'',
               JStr ''Failed to parse Python process response: Unexpected end of JSON input''),
              (''raw_output'', JStr truncated_document)]
   \<and> page_result_of truncated_env demo_job 0 =
        Failure ''https://x.com/''
          (''AI analysis failed: Failed to parse AI response: Unexpected end of JSON input. Raw output: ''
           @ truncated_document)"
proof -
  let ?E = truncated_env
  let ?url = "urls demo_job ! 0"
  let ?role = "analysisType_of ?E ?url (urls demo_job)"
  have h: "JSON_parse ?E truncated_document = Inl ''Unexpected end of JSON input''"
    by (rule truncated_document_fails)
  have u: "?url = ''https://x.com/''" and r: "?role = ''all''"
    by (simp_all add: truncated_env_def demo_eval)
  have c: "capture_stage ?E demo_job 0 ?url = Inr ''/out/x_com''"
    by (simp add: truncated_env_def demo_eval)
  have f: "\<not> (if ?role = ''all''
              then \<not> hasHeader ?E 0 ''/out/x_com'' \<and> \<not> hasFooter ?E 0 ''/out/x_com''
              else \<not> hasBody ?E 0 ''/out/x_com'')"
    by (simp add: truncated_env_def demo_eval)
  have s: "spawn ?E 0 (pythonPath ?E) [aiScriptPath ?E, ''/out/x_com'', ?url, ?role]
             = Inr (Closed (Some 0) truncated_document [])"
    by (simp add: truncated_env_def demo_eval)
  have s': "spawn ?E 0 ''python'' [''middleware.py'', ''/out/x_com'', ''https://x.com/'', ''all'']
             = Inr (Closed (Some 0) truncated_document [])"
    by (simp add: truncated_env_def demo_eval)
  have l: "take 200 truncated_document = truncated_document"
    by (simp add: truncated_document_def)
  note t = malformed_json_downgraded
    [OF h, of "''Python process''" demo_job 0 "''/out/x_com''" "Some 0" "[]"]
  from t have p: "parseProcessOutput ?E truncated_document ''Python process'' =
        JObj [(''success'', JBool False),
              (''error'', JStr (''Failed to parse '' @ ''Python process'' @ '' response: ''
                                @ ''Unexpected end of JSON input'')),
              (''raw_output'', JStr (take 200 truncated_document))]"
    by (rule conjunct1)
  from t c f s have q: "page_result_of ?E demo_job 0 =
        Failure ?url (''AI analysis failed: '' @
           (if Some (0::int) = Some 0
            then ''Failed to parse AI response: '' @ ''Unexpected end of JSON input''
                 @ ''. Raw output: '' @ take 200 truncated_document
            else if ([]::string) \<noteq> [] then []
            else ''AI analysis failed with code '' @ code_String ?E (Some 0)))"
    by blast
  from h s' p q show ?thesis
    unfolding l u by simp
qed

text \<open>
  Counterexample to C7 as stated: the analysis of the first URL of the demo job writes
  the same truncated document, which does not parse, and exits with code 1 after the
  line \<^verbatim>\<open>boom\<close> on its standard error. Its output is not parsed, and the message of the
  Failure is that line: it does not mention a parse failure.
\<close>

theorem nonzero_exit_counterexample:
  "JSON_parse crashed_env truncated_document = Inl ''Unexpected end of JSON input''
   \<and> fst (try_block crashed_env demo_job 0 ''https://x.com/'')
      = [(''python'', [''-m'', ''screenshot_urlbox.processor'', ''https://x.com/'']),
         (''python'', [''middleware.py'', ''/out/x_com'', ''https://x.com/'', ''all''])]
   \<and> spawn crashed_env 0 ''python''
        [''middleware.py'', ''/out/x_com'', ''https://x.com/'', ''all'']
        = Inr (Closed (Some 1) truncated_document ''boom'')
   \<and> page_result_of crashed_env demo_job 0 = Failure ''https://x.com/'' ''AI analysis failed: boom''"
  by (simp add: page_result_of_def try_block_def crashed_env_def demo_eval Let_def
      demo_JSON_parse_def truncated_document_def empty_document_def object_error_document_def)

text \<open>
  The error of an analysis need not be a string. Here the analysis reports
  \<^verbatim>\<open>{"success":false,"error":{"toString":1}}\<close>: the template of the \<^verbatim>\<open>throw\<close> cannot convert
  the object, and the message of the Failure is the one of that TypeError.
\<close>

lemma object_error_message:
  "page_result_of object_error_env demo_job 0 =
     Failure ''https://x.com/'' ''Cannot convert object to primitive value''"
  by (simp add: page_result_of_def try_block_def object_error_env_def demo_eval Let_def
      on_ai_stdout_def demo_JSON_parse_def empty_document_def object_error_document_def
      demo_template_def)


subsection \<open>Broadcasting\<close>

text \<open>
  C4 at its failing input: two observers are attached and the write to the first one
  throws. The first is removed, and the second one, which works, is passed over: the
  trace has no write of the event to it, and it stays attached.
\<close>

theorem broadcast_skips_next_observer:
  "broken two_observers 0 \<and> \<not> broken two_observers 1
   \<and> map_option sseConnections (analysisJobs two_observers ''job1'') = Some (Some [0, 1])
   \<and> trace (broadcastToJob ''job1''
              (PageComplete (Failure ''https://x.com/'' ''Screenshot failed: timeout''))
              two_observers)
      = trace two_observers
   \<and> map_option sseConnections
        (analysisJobs (broadcastToJob ''job1''
                         (PageComplete (Failure ''https://x.com/'' ''Screenshot failed: timeout''))
                         two_observers) ''job1'')
      = Some (Some [1])"
  by (simp add: broadcastToJob_def sse_of_def update_sse_def two_observers_def demo_world_def
      demo_job_def forEach_write.simps)

subsection \<open>The broadcast loop, read off the list\<close>

lemma forEach_write_deliver:
  "length conns \<le> len \<Longrightarrow>
   forEach_write brk ev k len (conns, tr) =
     (take k conns @ fst (deliver brk (drop k conns)),
      tr @ map (\<lambda>c. Wrote c ev) (snd (deliver brk (drop k conns))))"
proof (induction brk ev k len "(conns, tr)" arbitrary: conns tr rule: forEach_write.induct)
  case (1 brk ev k len conns tr)
  show ?case
  proof (cases "k < len")
    case False
    with "1.prems" show ?thesis by (simp add: forEach_write.simps [of brk ev k len])
  next
    case klen: True
    show ?thesis
    proof (cases "k < length conns")
      case False
      with klen "1.hyps"(3) "1.prems" show ?thesis
        by (simp add: forEach_write.simps [of brk ev k len])
    next
      case kc: True
      then have d: "drop k conns = conns ! k # drop (Suc k) conns"
        by (simp add: Cons_nth_drop_Suc)
      show ?thesis
      proof (cases "brk (conns ! k)")
        case True
        let ?conns' = "take k conns @ drop (Suc k) conns"
        have len': "length ?conns' \<le> len" using "1.prems" by simp
        have tk: "take (Suc k) ?conns' = take k conns @ take 1 (drop (Suc k) conns)"
          using kc by simp
        have dk: "drop (Suc k) ?conns' = drop 1 (drop (Suc k) conns)"
          using kc by simp
        from "1.hyps"(1) [OF klen kc True len'] klen kc True
        have "forEach_write brk ev k len (conns, tr) =
            (take (Suc k) ?conns' @ fst (deliver brk (drop (Suc k) ?conns')),
             tr @ map (\<lambda>c. Wrote c ev) (snd (deliver brk (drop (Suc k) ?conns'))))"
          by (simp add: forEach_write.simps [of brk ev k len])
        then show ?thesis
          unfolding tk dk d using True
          by (cases "drop (Suc k) conns") simp_all
      next
        case False
        from "1.hyps"(2) [OF klen kc False "1.prems"] klen kc False
        have "forEach_write brk ev k len (conns, tr) =
            (take (Suc k) conns @ fst (deliver brk (drop (Suc k) conns)),
             (tr @ [Wrote (conns ! k) ev])
               @ map (\<lambda>c. Wrote c ev) (snd (deliver brk (drop (Suc k) conns))))"
          by (simp add: forEach_write.simps [of brk ev k len])
        then show ?thesis
          unfolding d using False kc
          by (simp add: take_Suc_conv_app_nth)
      qed
    qed
  qed
qed

lemma broadcastToJob_deliver:
  "broadcastToJob jobId ev w =
     (case analysisJobs w jobId of
        None \<Rightarrow> w
      | Some job \<Rightarrow>
          (case sse_of w job of
             None \<Rightarrow> w
           | Some conns \<Rightarrow>
               update_sse jobId job (fst (deliver (broken w) conns))
                 (w\<lparr>trace := trace w @ map (\<lambda>c. Wrote c ev) (snd (deliver (broken w) conns))\<rparr>)))"
  by (simp add: broadcastToJob_def forEach_write_deliver split: option.splits)

lemma deliver_set:
  "set (fst (deliver brk cs)) \<subseteq> set cs \<and> set (snd (deliver brk cs)) \<subseteq> set cs"
proof (induction brk cs rule: deliver.induct)
  case (1 brk)
  then show ?case by simp
next
  case (2 brk c cs)
  show ?case
  proof (cases "brk c")
    case False
    with "2.IH"(3) [OF False] show ?thesis by auto
  next
    case True
    show ?thesis
    proof (cases cs)
      case Nil
      with True show ?thesis by simp
    next
      case (Cons d ds)
      with True "2.IH"(1) [OF True Cons] show ?thesis by auto
    qed
  qed
qed

lemma deliver_distinct:
  "distinct cs \<Longrightarrow> distinct (fst (deliver brk cs)) \<and> distinct (snd (deliver brk cs))"
proof (induction brk cs rule: deliver.induct)
  case (1 brk)
  then show ?case by simp
next
  case (2 brk c cs)
  show ?case
  proof (cases "brk c")
    case False
    with "2.IH"(3) [OF False] "2.prems" deliver_set [of brk cs] show ?thesis by auto
  next
    case True
    show ?thesis
    proof (cases cs)
      case Nil
      with True show ?thesis by simp
    next
      case (Cons d ds)
      with True "2.IH"(1) [OF True Cons] "2.prems" deliver_set [of brk ds] show ?thesis by auto
    qed
  qed
qed

lemma deliver_working: "c \<in> set (snd (deliver brk cs)) \<Longrightarrow> \<not> brk c"
proof (induction brk cs rule: deliver.induct)
  case (1 brk)
  then show ?case by simp
next
  case (2 brk d cs)
  show ?case
  proof (cases "brk d")
    case False
    with "2.IH"(3) [OF False] "2.prems" show ?thesis by auto
  next
    case True
    show ?thesis
    proof (cases cs)
      case Nil
      with True "2.prems" show ?thesis by simp
    next
      case (Cons e es)
      with True "2.IH"(1) [OF True Cons] "2.prems" show ?thesis by auto
    qed
  qed
qed

lemma deliver_all_working: "\<forall>c\<in>set cs. \<not> brk c \<Longrightarrow> deliver brk cs = (cs, cs)"
  by (induction cs) auto


subsection \<open>What processing changes in a job\<close>

lemma job_view_analysisJobs_update [simp]:
  "job_view (w\<lparr>analysisJobs := (analysisJobs w)(jobId \<mapsto> job)\<rparr>) =
     (job_view w)(jobId \<mapsto> without_connections job)"
  by (rule ext) (simp add: job_view_def)

lemma job_view_spawned_update [simp]:
  "job_view (w\<lparr>spawned := s\<rparr>) = job_view w"
  by (rule ext) (simp add: job_view_def)

lemma job_view_trace_update [simp]:
  "job_view (w\<lparr>trace := t\<rparr>) = job_view w"
  by (rule ext) (simp add: job_view_def)

lemma job_view_next_res_update [simp]:
  "job_view (w\<lparr>next_res := n\<rparr>) = job_view w"
  by (rule ext) (simp add: job_view_def)

lemma job_view_prototype_update [simp]:
  "job_view (w\<lparr>prototype_sseConnections := p\<rparr>) = job_view w"
  by (rule ext) (simp add: job_view_def)

lemma job_view_function_update [simp]:
  "job_view (w\<lparr>function_sseConnections := f\<rparr>) = job_view w"
  by (rule ext) (simp add: job_view_def)

lemma job_view_closeHandlers_update [simp]:
  "job_view (w\<lparr>closeHandlers := h\<rparr>) = job_view w"
  by (rule ext) (simp add: job_view_def)

lemma job_view_broken_update [simp]:
  "job_view (w\<lparr>broken := b\<rparr>) = job_view w"
  by (rule ext) (simp add: job_view_def)

lemma job_view_connections_update:
  "analysisJobs w jobId = Some job \<Longrightarrow>
   (job_view w)(jobId \<mapsto> without_connections (job\<lparr>sseConnections := cs\<rparr>)) = job_view w"
  by (rule ext) (simp add: job_view_def without_connections_def)

lemma job_view_update_sse:
  "analysisJobs w jobId = Some job \<Longrightarrow> job_view (update_sse jobId job conns w) = job_view w"
  by (simp add: update_sse_def job_view_connections_update split: option.splits)

lemma job_view_broadcastToJob [simp]:
  "job_view (broadcastToJob jobId ev w) = job_view w"
proof (cases "analysisJobs w jobId")
  case None
  then show ?thesis by (simp add: broadcastToJob_def)
next
  case (Some job)
  have "job_view (update_sse jobId job conns (w\<lparr>trace := t\<rparr>)) = job_view w" for conns t
    using job_view_update_sse [of "w\<lparr>trace := t\<rparr>" jobId job conns] Some by simp
  with Some show ?thesis
    by (simp add: broadcastToJob_deliver split: option.splits)
qed

lemma job_view_inherited_subscribe:
  "inherited_subscribe jobId w = Some w1 \<Longrightarrow> job_view w1 = job_view w"
  by (auto simp: inherited_subscribe_def Let_def split: if_splits option.splits)

lemma job_view_analysis_stream [simp]:
  "job_view (analysis_stream jobId now w) = job_view w"
proof (cases "analysisJobs w jobId")
  case None
  then show ?thesis
    by (auto simp: analysis_stream_def dest: job_view_inherited_subscribe split: option.splits)
next
  case (Some job)
  then show ?thesis
    by (simp add: analysis_stream_def Let_def job_view_connections_update job_view_update_sse
        split: option.splits)
qed

lemma job_view_on_close [simp]:
  "job_view (on_close jobId res w) = job_view w"
  by (simp add: on_close_def job_view_update_sse split: option.splits)

lemma job_view_serve [simp]: "job_view (serve r w) = job_view w"
  by (cases r) simp_all

lemma job_view_serve_all [simp]: "job_view (serve_all rs w) = job_view w"
  unfolding serve_all_def by (induction rs arbitrary: w) simp_all

lemma job_view_close_connections [simp]:
  "job_view (close_connections jobId w) = job_view w"
proof (cases "analysisJobs w jobId")
  case None
  then show ?thesis by (simp add: close_connections_def)
next
  case (Some job)
  then show ?thesis
    by (simp add: close_connections_def job_view_connections_update split: option.splits)
qed

lemma page_result_of_cong:
  assumes "urls a = urls b" "headerHeight a = headerHeight b" "footerHeight a = footerHeight b"
  shows "page_result_of E a i = page_result_of E b i"
proof -
  have "try_block E a i url = try_block E b i url" for url
    using assms by (intro try_block_cong screenshotArgs_cong)
  then show ?thesis unfolding page_result_of_def assms(1) by simp
qed

lemma page_result_of_without_connections [simp]:
  "page_result_of E (without_connections job) i = page_result_of E job i"
  by (rule page_result_of_cong) (simp_all add: without_connections_def)

lemma page_result_of_completed [simp]:
  "page_result_of E (job\<lparr>completed := rs\<rparr>) i = page_result_of E job i"
  by (rule page_result_of_cong) simp_all

lemma page_result_of_sseConnections [simp]:
  "page_result_of E (job\<lparr>sseConnections := cs\<rparr>) i = page_result_of E job i"
  by (rule page_result_of_cong) simp_all

lemma without_connections_completed [simp]:
  "without_connections (job\<lparr>completed := rs\<rparr>) = (without_connections job)\<lparr>completed := rs\<rparr>"
  by (cases job) (simp add: without_connections_def)

lemma without_connections_status [simp]:
  "without_connections (job\<lparr>status := s\<rparr>) = (without_connections job)\<lparr>status := s\<rparr>"
  by (cases job) (simp add: without_connections_def)

lemma without_connections_fields [simp]:
  "urls (without_connections job) = urls job"
  "headerHeight (without_connections job) = headerHeight job"
  "footerHeight (without_connections job) = footerHeight job"
  "status (without_connections job) = status job"
  "completed (without_connections job) = completed job"
  "total_pages (without_connections job) = total_pages job"
  "startTime (without_connections job) = startTime job"
  by (simp_all add: without_connections_def)

lemma job_view_Some:
  "analysisJobs w jobId = Some job \<Longrightarrow> job_view w jobId = Some (without_connections job)"
  by (simp add: job_view_def)

lemma job_view_None:
  "analysisJobs w jobId = None \<Longrightarrow> job_view w jobId = None"
  by (simp add: job_view_def)

lemma job_view_loop_body:
  "job_view (loop_body E jobId i w) =
     (job_view w)(jobId :=
        map_option (\<lambda>job. job\<lparr>completed := completed job @ [page_result_of E job i]\<rparr>)
          (job_view w jobId))"
proof (cases "analysisJobs w jobId")
  case None
  then have "(job_view w)(jobId := None) = job_view w"
    by (rule_tac ext) (simp add: job_view_def)
  with None show ?thesis by (simp add: loop_body_def job_view_None)
next
  case (Some job)
  then show ?thesis
    by (simp add: loop_body_def job_view_Some)
qed

lemma job_view_for_loop:
  "job_view (for_loop E sched jobId i n w) =
     (job_view w)(jobId :=
        map_option (\<lambda>job. job\<lparr>completed := completed job @ map (page_result_of E job) [i..<n]\<rparr>)
          (job_view w jobId))"
proof (induction E sched jobId i n w rule: for_loop.induct)
  case (1 E sched jobId i n w)
  show ?case
  proof (cases "i < n")
    case False
    then show ?thesis
      by (cases "job_view w jobId") (auto simp: for_loop.simps [of E sched jobId i n])
  next
    case True
    have u: "[i..<n] = i # [Suc i..<n]" using True by (simp add: upt_conv_Cons)
    show ?thesis
      using True "1.IH" [OF True]
      by (cases "job_view w jobId")
         (auto simp: for_loop.simps [of E sched jobId i n] job_view_loop_body u)
  qed
qed

lemma job_view_finish_job:
  "job_view (finish_job jobId now w) =
     (job_view w)(jobId := map_option (\<lambda>job. job\<lparr>status := StatusFinished\<rparr>) (job_view w jobId))"
proof (cases "analysisJobs w jobId")
  case None
  then have "(job_view w)(jobId := None) = job_view w"
    by (rule_tac ext) (simp add: job_view_def)
  with None show ?thesis by (simp add: finish_job_def job_view_None)
next
  case (Some job)
  then show ?thesis
    by (simp add: finish_job_def job_view_Some)
qed

lemma result_url_page_result_of [simp]:
  "result_url (page_result_of E job i) = urls job ! i"
  by (simp add: page_result_of_def try_block_def assemble_def Let_def
      split: sum.splits prod.splits)



lemma job_view_processAnalysisJob:
  assumes "analysisJobs w jobId = Some job"
  shows "job_view (processAnalysisJob E sched now jobId w) jobId =
     Some ((without_connections job)
             \<lparr>completed := completed job @ map (page_result_of E job) [0..<length (urls job)],
              status := StatusFinished\<rparr>)"
  using assms
  by (simp add: processAnalysisJob_def job_view_finish_job job_view_for_loop job_view_Some)



lemma demo_page_results:
  "page_result_of demo_env demo_job 0 = Failure ''https://x.com/'' ''Screenshot failed: spawn ENOENT''"
  "page_result_of demo_env demo_job (Suc 0) = Failure ''https://x.com/products'' ''Screenshot failed: spawn ENOENT''"
  by (simp_all add: page_result_of_def try_block_def demo_eval)



subsection \<open>Traces and subscriber sets\<close>

lemma update_sse_fields [simp]:
  "trace (update_sse j job cs w) = trace w"
  "next_res (update_sse j job cs w) = next_res w"
  "broken (update_sse j job cs w) = broken w"
  "closeHandlers (update_sse j job cs w) = closeHandlers w"
  by (simp_all add: update_sse_def split: option.splits)

lemma connections_update_sse:
  "analysisJobs w j = Some job \<Longrightarrow> connections j (update_sse j job cs w) = cs"
  by (simp add: update_sse_def connections_def sse_of_def split: option.splits)

lemma sse_of_frame [simp]:
  "sse_of (w\<lparr>trace := t\<rparr>) job = sse_of w job"
  "sse_of (w\<lparr>closeHandlers := h\<rparr>) job = sse_of w job"
  "sse_of (w\<lparr>broken := b\<rparr>) job = sse_of w job"
  "sse_of (w\<lparr>next_res := n\<rparr>) job = sse_of w job"
  "sse_of (w\<lparr>spawned := s\<rparr>) job = sse_of w job"
  "sse_of (w\<lparr>analysisJobs := js\<rparr>) job = sse_of w job"
  by (simp_all add: sse_of_def cong: option.case_cong)

lemma connections_frame [simp]:
  "connections j (w\<lparr>trace := t\<rparr>) = connections j w"
  "connections j (w\<lparr>closeHandlers := h\<rparr>) = connections j w"
  "connections j (w\<lparr>broken := b\<rparr>) = connections j w"
  "connections j (w\<lparr>next_res := n\<rparr>) = connections j w"
  "connections j (w\<lparr>spawned := s\<rparr>) = connections j w"
  by (simp_all add: connections_def cong: option.case_cong)

lemma connections_None: "analysisJobs w j = None \<Longrightarrow> connections j w = []"
  by (simp add: connections_def)

lemma trace_broadcastToJob:
  "trace (broadcastToJob j ev w) =
     trace w @ map (\<lambda>c. Wrote c ev) (snd (deliver (broken w) (connections j w)))"
  by (simp add: broadcastToJob_deliver connections_def split: option.splits)

lemma connections_broadcastToJob:
  "connections j (broadcastToJob j ev w) = fst (deliver (broken w) (connections j w))"
proof (cases "analysisJobs w j")
  case None
  then show ?thesis by (simp add: broadcastToJob_def connections_None)
next
  case (Some job)
  show ?thesis
  proof (cases "sse_of w job")
    case None
    with Some show ?thesis by (simp add: broadcastToJob_def connections_def)
  next
    case (Some conns)
    from \<open>analysisJobs w j = Some job\<close> have c: "connections j w = conns"
      by (simp add: connections_def Some)
    have "connections j (update_sse j job cs (w\<lparr>trace := t\<rparr>)) = cs" for cs t
      using \<open>analysisJobs w j = Some job\<close> by (intro connections_update_sse) simp
    with \<open>analysisJobs w j = Some job\<close> Some c show ?thesis
      by (simp add: broadcastToJob_deliver)
  qed
qed

lemma next_res_broadcastToJob [simp]: "next_res (broadcastToJob j ev w) = next_res w"
  by (simp add: broadcastToJob_deliver split: option.splits)

lemma broken_broadcastToJob [simp]: "broken (broadcastToJob j ev w) = broken w"
  by (simp add: broadcastToJob_deliver split: option.splits)

lemma inherited_subscribe_frame:
  assumes "inherited_subscribe j w = Some w1"
  shows "analysisJobs w1 = analysisJobs w" and "broken w1 = broken w"
    and "closeHandlers w1 = closeHandlers w"
  using assms
  by (auto simp: inherited_subscribe_def Let_def split: if_splits option.splits)

lemma trace_analysis_stream:
  "analysisJobs w j = Some job \<Longrightarrow>
   trace (analysis_stream j now w) =
     trace w @ (if broken w (next_res w) then [Threw (next_res w)]
                else replay j now job (next_res w))"
  by (simp add: analysis_stream_def replay_def Let_def split: option.splits)

lemma trace_analysis_stream_unknown:
  "analysisJobs w j = None \<Longrightarrow>
   trace (analysis_stream j now w) =
     trace w @ [if analysisJobs_defined w \<and> inherited_subscribe j w \<noteq> None
                then Threw (next_res w)
                else SentError (next_res w) 404 ''Job not found'']"
  by (auto simp: analysis_stream_def split: option.splits)

lemma next_res_analysis_stream [simp]:
  "next_res (analysis_stream j now w) = Suc (next_res w)"
  by (simp add: analysis_stream_def Let_def split: option.splits)

lemma broken_analysis_stream [simp]: "broken (analysis_stream j now w) = broken w"
  by (auto simp: analysis_stream_def Let_def inherited_subscribe_frame split: option.splits)

lemma connections_analysis_stream:
  "connections j (analysis_stream j now w) =
     (if analysisJobs w j \<noteq> None then connections j w @ [next_res w] else connections j w)"
proof (cases "analysisJobs w j")
  case None
  then have "analysisJobs (analysis_stream j now w) j = None"
    by (auto simp: analysis_stream_def inherited_subscribe_frame split: option.splits)
  with None show ?thesis by (simp add: connections_None)
next
  case (Some job)
  show ?thesis
  proof (cases "sse_of w job")
    case None
    with Some show ?thesis
      by (simp add: analysis_stream_def Let_def connections_def sse_of_def)
  next
    case (Some conns)
    from \<open>analysisJobs w j = Some job\<close> have c: "connections j w = conns"
      by (simp add: connections_def Some)
    have "connections j (update_sse j job cs w) = cs" for cs
      using \<open>analysisJobs w j = Some job\<close> by (rule connections_update_sse)
    with \<open>analysisJobs w j = Some job\<close> Some c show ?thesis
      by (simp add: analysis_stream_def Let_def)
  qed
qed

lemma closeHandlers_analysis_stream:
  "closeHandlers (analysis_stream j now w) =
     closeHandlers w @
     (if analysisJobs w j \<noteq> None \<and> \<not> broken w (next_res w) then [(j, next_res w)] else [])"
  by (auto simp: analysis_stream_def Let_def inherited_subscribe_frame split: option.splits)

lemma trace_on_close [simp]: "trace (on_close j res w) = trace w"
  by (simp add: on_close_def split: option.splits)

lemma next_res_on_close [simp]: "next_res (on_close j res w) = next_res w"
  by (simp add: on_close_def split: option.splits)

lemma broken_on_close [simp]: "broken (on_close j res w) = broken w"
  by (simp add: on_close_def split: option.splits)

lemma connections_on_close:
  "connections j (on_close j res w) = remove1 res (connections j w)"
proof (cases "analysisJobs w j")
  case None
  then show ?thesis by (simp add: on_close_def connections_None)
next
  case (Some job)
  then show ?thesis
    by (cases "sse_of w job") (simp_all add: on_close_def connections_update_sse, simp_all add: connections_def)
qed

lemma replay_conn_of: "e \<in> set (replay j now job res) \<Longrightarrow> conn_of e = res"
  by (auto simp: replay_def split: if_splits)


subsection \<open>Subscribing\<close>

text \<open>
  C3, as amended. A subscriber that attaches to a known job after \<open>N\<close> pages have
  completed, with a connection whose writes work, receives first the \<^verbatim>\<open>started\<close> snapshot
  (total count, \<open>N\<close>), then the \<open>N\<close> page results in the order of completion, each once,
  and, when the job is already \<^verbatim>\<open>finished\<close>, the \<^verbatim>\<open>finished\<close> event and the end of its
  connection; these are the first entries of the trace for its connection and they are
  consecutive, so no live event comes before or in between. In both cases the
  subscriber is attached to the subscriber set when the handler returns, also when the
  job is finished; it is detached when the \<^verbatim>\<open>close\<close> event of its request is handled.
\<close>

theorem subscribe_replay:
  assumes "analysisJobs w jobId = Some job" and "\<not> broken w (next_res w)"
    and "stream_inv jobId w"
  shows "trace (analysis_stream jobId now w) =
           trace w
           @ Wrote (next_res w) (Started jobId (total_pages job) (length (completed job)))
             # map (\<lambda>result. Wrote (next_res w) (PageComplete result)) (completed job)
             @ (if status job = StatusFinished
                then [Wrote (next_res w)
                        (Finished jobId (length (completed job)) (now - startTime job)),
                      Ended (next_res w)]
                else [])
       \<and> filter (\<lambda>e. conn_of e = next_res w) (trace (analysis_stream jobId now w)) =
           Wrote (next_res w) (Started jobId (total_pages job) (length (completed job)))
             # map (\<lambda>result. Wrote (next_res w) (PageComplete result)) (completed job)
             @ (if status job = StatusFinished
                then [Wrote (next_res w)
                        (Finished jobId (length (completed job)) (now - startTime job)),
                      Ended (next_res w)]
                else [])
       \<and> connections jobId (analysis_stream jobId now w) = connections jobId w @ [next_res w]
       \<and> connections jobId
            (serve (ClientClose jobId (next_res w)) (analysis_stream jobId now w))
           = connections jobId w"
proof -
  from assms(3) have fresh: "trace_fresh w" and conns: "\<forall>c\<in>set (connections jobId w). c < next_res w"
    by (simp_all add: stream_inv_def)
  have t: "trace (analysis_stream jobId now w) = trace w @ replay jobId now job (next_res w)"
    using assms(1,2) by (simp add: trace_analysis_stream)
  have "filter (\<lambda>e. conn_of e = next_res w) (trace w) = []"
    using fresh by (auto simp: trace_fresh_def filter_empty_conv)
  moreover have "filter (\<lambda>e. conn_of e = next_res w) (replay jobId now job (next_res w))
      = replay jobId now job (next_res w)"
    by (rule filter_True) (auto dest: replay_conn_of)
  ultimately have f: "filter (\<lambda>e. conn_of e = next_res w) (trace (analysis_stream jobId now w))
      = replay jobId now job (next_res w)"
    unfolding t by simp
  have c: "connections jobId (analysis_stream jobId now w) = connections jobId w @ [next_res w]"
    using assms(1) by (simp add: connections_analysis_stream)
  have h: "(jobId, next_res w) \<in> set (closeHandlers (analysis_stream jobId now w))"
    using assms(1,2) by (simp add: closeHandlers_analysis_stream)
  have n: "next_res w \<notin> set (connections jobId w)"
    using conns by auto
  have d: "connections jobId
            (serve (ClientClose jobId (next_res w)) (analysis_stream jobId now w))
           = connections jobId w"
    using h n by (simp add: connections_on_close c remove1_append)
  from t f c d show ?thesis
    unfolding replay_def by simp
qed

lemma finished_world_job:
  "analysisJobs finished_world ''job1'' =
     Some (demo_job\<lparr>status := StatusFinished,
                     completed := [Failure ''https://x.com/'' ''Screenshot failed: spawn ENOENT'',
                                   Failure ''https://x.com/products''
                                     ''Screenshot failed: spawn ENOENT''],
                     sseConnections := Some []\<rparr>)"
  by (simp add: finished_world_def)

lemma finished_world_inv: "stream_inv ''job1'' finished_world"
  by (simp add: stream_inv_def trace_fresh_def finished_world_def connections_def sse_of_def
      running_def)

lemma finished_world_working: "\<not> broken finished_world (next_res finished_world)"
  by (simp add: finished_world_def)

text \<open>
  Witness for C3: a subscriber arrives after the demo job has finished.
\<close>

theorem subscribe_replay_witness:
  "filter (\<lambda>e. conn_of e = 2) (trace (analysis_stream ''job1'' 3000 finished_world)) =
     [Wrote 2 (Started ''job1'' 2 2),
      Wrote 2 (PageComplete (Failure ''https://x.com/'' ''Screenshot failed: spawn ENOENT'')),
      Wrote 2 (PageComplete (Failure ''https://x.com/products'' ''Screenshot failed: spawn ENOENT'')),
      Wrote 2 (Finished ''job1'' 2 2000),
      Ended 2]
   \<and> connections ''job1''
        (serve (ClientClose ''job1'' 2) (analysis_stream ''job1'' 3000 finished_world)) = []"
  using subscribe_replay [OF finished_world_job finished_world_working finished_world_inv, of 3000]
  by (simp add: finished_world_def demo_job_def connections_def sse_of_def)

text \<open>
  Counterexample to C3 as stated: the job is finished and nobody is attached; a
  subscriber arrives and receives the replay and the \<^verbatim>\<open>finished\<close> event, its connection
  is ended, and it is a member of the subscriber set when the handler returns.
\<close>

theorem subscriber_stays_attached_counterexample:
  "map_option status (analysisJobs finished_world ''job1'') = Some StatusFinished
   \<and> connections ''job1'' finished_world = []
   \<and> next_res finished_world = 2
   \<and> trace (analysis_stream ''job1'' 3000 finished_world) =
       trace finished_world
       @ [Wrote 2 (Started ''job1'' 2 2),
          Wrote 2 (PageComplete (Failure ''https://x.com/'' ''Screenshot failed: spawn ENOENT'')),
          Wrote 2 (PageComplete (Failure ''https://x.com/products''
                                   ''Screenshot failed: spawn ENOENT'')),
          Wrote 2 (Finished ''job1'' 2 2000),
          Ended 2]
   \<and> connections ''job1'' (analysis_stream ''job1'' 3000 finished_world) = [2]"
  by (simp add: finished_world_def demo_job_def connections_def sse_of_def update_sse_def
      analysis_stream_def Let_def)


subsection \<open>Running the model on concrete worlds\<close>

lemma trace_analysis_stream_view:
  "trace (analysis_stream j now w) =
     trace w @
     (case job_view w j of
        None \<Rightarrow> [if analysisJobs_defined w \<and> inherited_subscribe j w \<noteq> None
                 then Threw (next_res w)
                 else SentError (next_res w) 404 ''Job not found'']
      | Some job \<Rightarrow> if broken w (next_res w) then [Threw (next_res w)]
                    else replay j now job (next_res w))"
proof (cases "analysisJobs w j")
  case None
  then show ?thesis by (simp add: trace_analysis_stream_unknown job_view_None)
next
  case (Some job)
  then show ?thesis by (simp add: trace_analysis_stream job_view_Some replay_def)
qed

lemma connections_analysis_stream_view:
  "connections j (analysis_stream j now w) =
     (if job_view w j \<noteq> None then connections j w @ [next_res w] else connections j w)"
  by (simp add: connections_analysis_stream job_view_def)

lemma closeHandlers_analysis_stream_view:
  "closeHandlers (analysis_stream j now w) =
     closeHandlers w @
     (if job_view w j \<noteq> None \<and> \<not> broken w (next_res w) then [(j, next_res w)] else [])"
  by (simp add: closeHandlers_analysis_stream job_view_def)

lemma connections_completed_update:
  "analysisJobs w j = Some job \<Longrightarrow>
   connections j (w\<lparr>analysisJobs := (analysisJobs w)(j \<mapsto> job\<lparr>completed := rs\<rparr>)\<rparr>)
     = connections j w"
  by (simp add: connections_def sse_of_def cong: option.case_cong)

lemma connections_status_update:
  "analysisJobs w j = Some job \<Longrightarrow>
   connections j (w\<lparr>analysisJobs := (analysisJobs w)(j \<mapsto> job\<lparr>status := s\<rparr>)\<rparr>)
     = connections j w"
  by (simp add: connections_def sse_of_def cong: option.case_cong)

lemma trace_loop_body:
  "trace (loop_body E j i w) =
     trace w @
     (case job_view w j of
        None \<Rightarrow> []
      | Some job \<Rightarrow>
          map (\<lambda>c. Wrote c (PageComplete (page_result_of E job i)))
            (snd (deliver (broken w) (connections j w))))"
proof (cases "analysisJobs w j")
  case None
  then show ?thesis by (simp add: loop_body_def job_view_None)
next
  case (Some job)
  then show ?thesis
    by (simp add: loop_body_def job_view_Some trace_broadcastToJob connections_completed_update)
qed

lemma connections_loop_body:
  "connections j (loop_body E j i w) = fst (deliver (broken w) (connections j w))"
proof (cases "analysisJobs w j")
  case None
  then show ?thesis by (simp add: loop_body_def connections_None)
next
  case (Some job)
  then show ?thesis
    by (simp add: loop_body_def connections_broadcastToJob connections_completed_update)
qed

lemma next_res_loop_body [simp]: "next_res (loop_body E j i w) = next_res w"
  by (cases "analysisJobs w j") (simp_all add: loop_body_def)

lemma broken_loop_body [simp]: "broken (loop_body E j i w) = broken w"
  by (cases "analysisJobs w j") (simp_all add: loop_body_def)

lemma trace_close_connections:
  "trace (close_connections j w) = trace w @ map Ended (connections j w)"
  by (simp add: close_connections_def connections_def split: option.splits)

lemma connections_close_connections: "connections j (close_connections j w) = []"
  by (simp add: close_connections_def connections_def sse_of_def split: option.splits)

lemma trace_finish_job:
  "trace (finish_job j now w) =
     trace w @
     (case job_view w j of
        None \<Rightarrow> []
      | Some job \<Rightarrow>
          map (\<lambda>c. Wrote c (Finished j (length (completed job)) (now - startTime job)))
            (snd (deliver (broken w) (connections j w)))
          @ map Ended (fst (deliver (broken w) (connections j w))))"
proof (cases "analysisJobs w j")
  case None
  then show ?thesis by (simp add: finish_job_def job_view_None)
next
  case (Some job)
  then show ?thesis
    by (simp add: finish_job_def job_view_Some trace_close_connections trace_broadcastToJob
        connections_broadcastToJob connections_status_update)
qed

lemma connections_finish_job: "connections j (finish_job j now w) = []"
  by (cases "analysisJobs w j")
     (simp_all add: finish_job_def connections_None connections_close_connections)

lemma next_res_close_connections [simp]: "next_res (close_connections j w) = next_res w"
  by (simp add: close_connections_def split: option.splits)

lemma broken_close_connections [simp]: "broken (close_connections j w) = broken w"
  by (simp add: close_connections_def split: option.splits)

lemma next_res_finish_job [simp]: "next_res (finish_job j now w) = next_res w"
  by (cases "analysisJobs w j") (simp_all add: finish_job_def)

lemma broken_finish_job [simp]: "broken (finish_job j now w) = broken w"
  by (cases "analysisJobs w j") (simp_all add: finish_job_def)

text \<open>
  The lookup of the handler at work: in the state of the demo job, a request for the
  stream of an unknown identifier is answered with 404; a request for \<^verbatim>\<open>constructor\<close> or
  for \<^verbatim>\<open>__proto__\<close> passes the test, and the handler throws after it has pushed the response
  object. After the request for \<^verbatim>\<open>__proto__\<close> the response object is in the array that the
  demo job reads as its subscribers.
\<close>

lemma inherited_keys_pass_lookup:
  "trace (analysis_stream ''nojob'' 1100 demo_world) = [SentError 0 404 ''Job not found'']
   \<and> trace (analysis_stream ''constructor'' 1100 demo_world) = [Threw 0]
   \<and> connections ''job1'' (analysis_stream ''constructor'' 1100 demo_world) = []
   \<and> trace (analysis_stream ''__proto__'' 1100 demo_world) = [Threw 0]
   \<and> prototype_sseConnections (analysis_stream ''__proto__'' 1100 demo_world) = Some [0]
   \<and> connections ''job1'' (analysis_stream ''__proto__'' 1100 demo_world) = [0]"
  by (simp add: analysis_stream_def inherited_subscribe_def Object_prototype_functions_def
      demo_world_def demo_job_def connections_def sse_of_def)

lemma processAnalysisJob_view:
  "processAnalysisJob E sched now j w =
     (case job_view w j of
        None \<Rightarrow> w
      | Some job \<Rightarrow> finish_job j now (for_loop E sched j 0 (length (urls job)) w))"
  by (simp add: processAnalysisJob_def job_view_def split: option.splits)

lemma demo_world_obs:
  "job_view demo_world ''job1'' = Some (without_connections demo_job)"
  "connections ''job1'' demo_world = []"
  "trace demo_world = []" "next_res demo_world = 0" "broken demo_world = (\<lambda>res. False)"
  by (simp_all add: demo_world_def job_view_def connections_def sse_of_def demo_job_def)

lemma demo_job_fields:
  "urls demo_job = [''https://x.com/'', ''https://x.com/products'']"
  "status demo_job = StatusStarted" "completed demo_job = []"
  "total_pages demo_job = 2" "startTime demo_job = 1000"
  by (simp_all add: demo_job_def)

lemmas observers = processAnalysisJob_view job_view_loop_body job_view_finish_job
  trace_finish_job trace_loop_body connections_loop_body connections_finish_job
  trace_analysis_stream_view connections_analysis_stream_view
  connections_on_close closeHandlers_analysis_stream_view

lemma for_loop_unroll:
  "for_loop E sched j i (Suc n) w =
     (if i < Suc n then for_loop E sched j (Suc i) (Suc n) (loop_body E j i (serve_all (sched i) w)) else w)"
  "for_loop E sched j i 0 w = w"
  by (simp_all add: for_loop.simps [of E sched j i])

lemma demo_urls: "length (urls (without_connections demo_job)) = Suc (Suc 0)"
  by (simp add: demo_job_def)

lemma demo_run_trace:
  "trace (processAnalysisJob demo_env demo_sched 2000 ''job1'' demo_world) =
   [Wrote 0 (Started ''job1'' 2 0),
    Wrote 0 (PageComplete (Failure ''https://x.com/'' ''Screenshot failed: spawn ENOENT'')),
    Wrote 1 (Started ''job1'' 2 1),
    Wrote 1 (PageComplete (Failure ''https://x.com/'' ''Screenshot failed: spawn ENOENT'')),
    Wrote 1 (Finished ''job1'' 2 1000),
    Ended 1]"
  by (simp add: observers demo_world_obs demo_urls for_loop_unroll serve_all_def demo_sched_def
      replay_def demo_page_results demo_job_fields)

text \<open>
  The state \<open>finished_world\<close> is the one the demo job reaches with the requests of
  \<open>demo_sched\<close>. Its second subscriber has missed the result of the second URL, the
  connection before it in the array having thrown; it has received the \<^verbatim>\<open>finished\<close>
  event.
\<close>

lemma finished_world_reached:
  "trace finished_world = trace (processAnalysisJob demo_env demo_sched 2000 ''job1'' demo_world)
   \<and> job_view finished_world ''job1''
       = job_view (processAnalysisJob demo_env demo_sched 2000 ''job1'' demo_world) ''job1''
   \<and> connections ''job1'' finished_world
       = connections ''job1'' (processAnalysisJob demo_env demo_sched 2000 ''job1'' demo_world)
   \<and> next_res finished_world
       = next_res (processAnalysisJob demo_env demo_sched 2000 ''job1'' demo_world)"
proof -
  have a: "trace finished_world
      = trace (processAnalysisJob demo_env demo_sched 2000 ''job1'' demo_world)"
    unfolding demo_run_trace by (simp add: finished_world_def)
  have b: "job_view finished_world ''job1''
       = job_view (processAnalysisJob demo_env demo_sched 2000 ''job1'' demo_world) ''job1''"
    by (simp add: observers demo_world_obs demo_urls for_loop_unroll serve_all_def demo_sched_def
        demo_page_results demo_job_fields finished_world_def job_view_Some)
       (simp add: without_connections_def demo_job_def)
  have c: "connections ''job1'' finished_world
       = connections ''job1'' (processAnalysisJob demo_env demo_sched 2000 ''job1'' demo_world)"
  proof -
    have "connections ''job1'' finished_world = []"
      by (simp add: finished_world_def connections_def sse_of_def)
    then show ?thesis by (simp add: observers demo_world_obs)
  qed
  have d: "next_res finished_world
       = next_res (processAnalysisJob demo_env demo_sched 2000 ''job1'' demo_world)"
    by (simp add: observers demo_world_obs demo_job_fields for_loop_unroll serve_all_def
        demo_sched_def finished_world_def)
  from a b c d show ?thesis by blast
qed


subsection \<open>An invariant of the event streams\<close>

text \<open>
  The invariant \<open>stream_inv\<close> that the theorem on subscribing assumes holds in every
  state that the model reaches from a state where the response objects of all jobs and
  of the array of \<^verbatim>\<open>Object.prototype\<close> are older than the next fresh one, whatever the
  requests are, those for inherited keys included: a response object enters the trace
  and the subscriber sets only in the handler that has received it as the next fresh one.
\<close>

lemma older_than_stream_inv: "older_than (next_res w) w \<Longrightarrow> stream_inv jobId w"
  by (simp add: older_than_def stream_inv_def trace_fresh_def)

lemma older_than_mono: "older_than n w \<Longrightarrow> n \<le> m \<Longrightarrow> older_than m w"
  unfolding older_than_def by (meson less_le_trans)

lemma connections_function_update [simp]:
  "connections j (w\<lparr>function_sseConnections := f\<rparr>) = connections j w"
  by (simp add: connections_def sse_of_def cong: option.case_cong)

lemma older_than_frame [simp]:
  "older_than n (w\<lparr>closeHandlers := h\<rparr>) = older_than n w"
  "older_than n (w\<lparr>broken := b\<rparr>) = older_than n w"
  "older_than n (w\<lparr>next_res := k\<rparr>) = older_than n w"
  "older_than n (w\<lparr>spawned := s\<rparr>) = older_than n w"
  "older_than n (w\<lparr>function_sseConnections := f\<rparr>) = older_than n w"
  by (simp_all add: older_than_def)

lemma older_than_fields:
  assumes "older_than n w" and "\<forall>e\<in>set (trace w'). conn_of e < n"
    and "analysisJobs w' = analysisJobs w"
    and "prototype_sseConnections w' = prototype_sseConnections w"
  shows "older_than n w'"
proof -
  have "connections j w' = connections j w" for j
    using assms(3,4) by (simp add: connections_def sse_of_def cong: option.case_cong)
  with assms show ?thesis by (simp add: older_than_def)
qed

lemma older_than_trace:
  "older_than n w \<Longrightarrow> \<forall>e\<in>set t. conn_of e < n \<Longrightarrow> older_than n (w\<lparr>trace := t\<rparr>)"
  by (simp add: older_than_def)

lemma older_than_sse_of:
  "older_than n w \<Longrightarrow> analysisJobs w j = Some job \<Longrightarrow> sse_of w job = Some conns \<Longrightarrow>
   \<forall>c\<in>set conns. c < n"
  unfolding older_than_def connections_def by (metis option.simps(5))

lemma connections_prototype_update:
  "connections j (w\<lparr>prototype_sseConnections := Some cs\<rparr>) = connections j w
   \<or> connections j (w\<lparr>prototype_sseConnections := Some cs\<rparr>) = cs"
  by (simp add: connections_def sse_of_def split: option.splits)

lemma older_than_prototype:
  assumes "older_than n w" and "\<forall>c\<in>set cs. c < n"
  shows "older_than n (w\<lparr>prototype_sseConnections := Some cs\<rparr>)"
proof -
  have "\<forall>c\<in>set (connections j (w\<lparr>prototype_sseConnections := Some cs\<rparr>)). c < n" for j
    using connections_prototype_update [of j cs w] assms by (auto simp: older_than_def)
  with assms show ?thesis by (simp add: older_than_def)
qed

lemma connections_job_update_other:
  "j' \<noteq> j \<Longrightarrow>
   connections j' (w\<lparr>analysisJobs := (analysisJobs w)(j \<mapsto> job)\<rparr>) = connections j' w"
  by (simp add: connections_def cong: option.case_cong)

lemma older_than_job:
  assumes "older_than n w"
    and "\<forall>c\<in>set (connections j (w\<lparr>analysisJobs := (analysisJobs w)(j \<mapsto> job)\<rparr>)). c < n"
  shows "older_than n (w\<lparr>analysisJobs := (analysisJobs w)(j \<mapsto> job)\<rparr>)"
proof -
  have "\<forall>c\<in>set (connections j' (w\<lparr>analysisJobs := (analysisJobs w)(j \<mapsto> job)\<rparr>)). c < n" for j'
    using assms by (cases "j' = j") (simp_all add: connections_job_update_other older_than_def)
  with assms(1) show ?thesis by (simp add: older_than_def)
qed

lemma older_than_update_sse:
  "older_than n w \<Longrightarrow> \<forall>c\<in>set cs. c < n \<Longrightarrow> older_than n (update_sse j job cs w)"
  by (cases "sseConnections job")
     (simp_all add: update_sse_def older_than_prototype older_than_job connections_def sse_of_def)

lemma older_than_same_sse:
  assumes "older_than n w" and "analysisJobs w j = Some job"
    and "sseConnections job' = sseConnections job"
  shows "older_than n (w\<lparr>analysisJobs := (analysisJobs w)(j \<mapsto> job')\<rparr>)"
proof (rule older_than_job [OF assms(1)])
  have "connections j (w\<lparr>analysisJobs := (analysisJobs w)(j \<mapsto> job')\<rparr>) = connections j w"
    using assms(2,3) by (simp add: connections_def sse_of_def cong: option.case_cong)
  with assms(1) show "\<forall>c\<in>set (connections j (w\<lparr>analysisJobs := (analysisJobs w)(j \<mapsto> job')\<rparr>)). c < n"
    by (simp add: older_than_def)
qed

lemma older_than_broadcastToJob:
  assumes "older_than n w"
  shows "older_than n (broadcastToJob j ev w)"
proof (cases "analysisJobs w j")
  case None
  with assms show ?thesis by (simp add: broadcastToJob_def)
next
  case (Some job)
  show ?thesis
  proof (cases "sse_of w job")
    case None
    with Some assms show ?thesis by (simp add: broadcastToJob_def)
  next
    case (Some conns)
    from assms \<open>analysisJobs w j = Some job\<close> Some have b: "\<forall>c\<in>set conns. c < n"
      by (rule older_than_sse_of)
    from deliver_set [of "broken w" conns] b
    have f: "\<forall>c\<in>set (fst (deliver (broken w) conns)). c < n"
      and s: "\<forall>c\<in>set (snd (deliver (broken w) conns)). c < n"
      by auto
    from assms have t: "\<forall>e\<in>set (trace w). conn_of e < n" by (simp add: older_than_def)
    have "older_than n
            (w\<lparr>trace := trace w @ map (\<lambda>c. Wrote c ev) (snd (deliver (broken w) conns))\<rparr>)"
      using assms t s by (intro older_than_trace) auto
    then have "older_than n
            (update_sse j job (fst (deliver (broken w) conns))
               (w\<lparr>trace := trace w @ map (\<lambda>c. Wrote c ev) (snd (deliver (broken w) conns))\<rparr>))"
      using f by (rule older_than_update_sse)
    with \<open>analysisJobs w j = Some job\<close> Some show ?thesis
      by (simp add: broadcastToJob_deliver)
  qed
qed

lemma older_than_loop_body: "older_than n w \<Longrightarrow> older_than n (loop_body E j i w)"
  by (cases "analysisJobs w j")
     (simp_all add: loop_body_def older_than_broadcastToJob older_than_same_sse)

lemma older_than_close_connections:
  assumes "older_than n w"
  shows "older_than n (close_connections j w)"
proof (cases "analysisJobs w j")
  case None
  with assms show ?thesis by (simp add: close_connections_def)
next
  case (Some job)
  show ?thesis
  proof (cases "sse_of w job")
    case None
    with Some assms show ?thesis by (simp add: close_connections_def)
  next
    case (Some conns)
    from assms \<open>analysisJobs w j = Some job\<close> Some have b: "\<forall>c\<in>set conns. c < n"
      by (rule older_than_sse_of)
    have "older_than n (w\<lparr>analysisJobs := (analysisJobs w)(j \<mapsto> job\<lparr>sseConnections := Some []\<rparr>)\<rparr>)"
      using assms by (rule older_than_job) (simp add: connections_def sse_of_def)
    then have "older_than n
        (w\<lparr>analysisJobs := (analysisJobs w)(j \<mapsto> job\<lparr>sseConnections := Some []\<rparr>),
           trace := trace w @ map Ended conns\<rparr>)"
      using assms b by (intro older_than_trace) (auto simp: older_than_def)
    with \<open>analysisJobs w j = Some job\<close> Some show ?thesis
      by (simp add: close_connections_def)
  qed
qed

lemma older_than_finish_job: "older_than n w \<Longrightarrow> older_than n (finish_job j now w)"
  by (cases "analysisJobs w j")
     (simp_all add: finish_job_def older_than_close_connections older_than_broadcastToJob
        older_than_same_sse)

lemma older_than_on_close: "older_than n w \<Longrightarrow> older_than n (on_close j res w)"
proof (cases "analysisJobs w j")
  case None
  then show "older_than n w \<Longrightarrow> ?thesis" by (simp add: on_close_def)
next
  case (Some job)
  assume a: "older_than n w"
  show ?thesis
  proof (cases "sse_of w job")
    case None
    with \<open>analysisJobs w j = Some job\<close> a show ?thesis by (simp add: on_close_def)
  next
    case (Some conns)
    from a \<open>analysisJobs w j = Some job\<close> Some have "\<forall>c\<in>set conns. c < n"
      by (rule older_than_sse_of)
    then have "\<forall>c\<in>set (remove1 res conns). c < n"
      by (meson notin_set_remove1)
    with a have "older_than n (update_sse j job (remove1 res conns) w)"
      by (rule older_than_update_sse)
    with \<open>analysisJobs w j = Some job\<close> Some show ?thesis by (simp add: on_close_def)
  qed
qed

lemma older_than_inherited_subscribe:
  assumes "older_than (Suc (next_res w)) w" and "inherited_subscribe j w = Some w1"
  shows "older_than (Suc (next_res w)) w1"
proof -
  have p: "older_than (Suc (next_res w)) (w\<lparr>prototype_sseConnections := Some (cs @ [next_res w])\<rparr>)"
    if "\<forall>c\<in>set cs. c < Suc (next_res w)" for cs
    using assms(1) that by (intro older_than_prototype) auto
  have q: "\<forall>c\<in>set cs. c < Suc (next_res w)" if "prototype_sseConnections w = Some cs" for cs
    using assms(1) that by (simp add: older_than_def)
  from assms(2) p q p [of "[]"] assms(1) show ?thesis
    by (auto simp: inherited_subscribe_def Let_def split: if_splits option.splits)
qed

lemma older_than_analysis_stream:
  assumes "older_than (next_res w) w"
  shows "older_than (Suc (next_res w)) (analysis_stream j now w)"
proof -
  from assms have a: "older_than (Suc (next_res w)) w"
    by (rule older_than_mono) simp
  show ?thesis
  proof (cases "analysisJobs w j")
    case None
    show ?thesis
    proof (cases "if analysisJobs_defined w then inherited_subscribe j w else None")
      case None
      have "older_than (Suc (next_res w))
              (w\<lparr>trace := trace w @ [SentError (next_res w) 404 ''Job not found'']\<rparr>)"
        using a by (intro older_than_trace) (auto simp: older_than_def)
      with \<open>analysisJobs w j = None\<close> None show ?thesis
        by (simp add: analysis_stream_def older_than_def)
    next
      case (Some w1)
      then have i: "inherited_subscribe j w = Some w1" by (simp split: if_splits)
      have "older_than (Suc (next_res w)) w1"
        using a i by (rule older_than_inherited_subscribe)
      then have "older_than (Suc (next_res w)) (w1\<lparr>trace := trace w @ [Threw (next_res w)]\<rparr>)"
        using a by (intro older_than_trace) (auto simp: older_than_def)
      with \<open>analysisJobs w j = None\<close> Some show ?thesis
        by (simp add: analysis_stream_def older_than_def)
    qed
  next
    case (Some job)
    define w1 where "w1 =
      (case sse_of w job of
         None \<Rightarrow> w\<lparr>analysisJobs := (analysisJobs w)(j \<mapsto> job\<lparr>sseConnections := Some [next_res w]\<rparr>)\<rparr>
       | Some conns \<Rightarrow> update_sse j job (conns @ [next_res w]) w)"
    have w1: "older_than (Suc (next_res w)) w1"
    proof (cases "sse_of w job")
      case None
      have "older_than (Suc (next_res w))
              (w\<lparr>analysisJobs := (analysisJobs w)(j \<mapsto> job\<lparr>sseConnections := Some [next_res w]\<rparr>)\<rparr>)"
        using a by (rule older_than_job) (simp add: connections_def sse_of_def)
      with None show ?thesis by (simp add: w1_def)
    next
      case (Some conns)
      from a \<open>analysisJobs w j = Some job\<close> Some have "\<forall>c\<in>set conns. c < Suc (next_res w)"
        by (rule older_than_sse_of)
      then have "\<forall>c\<in>set (conns @ [next_res w]). c < Suc (next_res w)" by auto
      with a have "older_than (Suc (next_res w)) (update_sse j job (conns @ [next_res w]) w)"
        by (rule older_than_update_sse)
      with Some show ?thesis by (simp add: w1_def)
    qed
    have t1: "trace w1 = trace w"
      by (simp add: w1_def split: option.splits)
    have t: "trace (analysis_stream j now w) =
        trace w @ (if broken w (next_res w) then [Threw (next_res w)]
                   else replay j now job (next_res w))"
      using Some by (rule trace_analysis_stream)
    have e: "\<forall>e\<in>set (trace (analysis_stream j now w)). conn_of e < Suc (next_res w)"
      unfolding t using a by (auto simp: older_than_def dest: replay_conn_of)
    have j: "analysisJobs (analysis_stream j now w) = analysisJobs w1"
      and p: "prototype_sseConnections (analysis_stream j now w) = prototype_sseConnections w1"
      using Some by (simp_all add: analysis_stream_def Let_def w1_def split: option.splits)
    from w1 e j p show ?thesis
      by (rule older_than_fields)
  qed
qed

lemma stream_fresh_serve:
  "older_than (next_res w) w \<Longrightarrow> older_than (next_res (serve r w)) (serve r w)"
  by (cases r) (simp_all add: older_than_analysis_stream older_than_on_close)

lemma stream_fresh_serve_all:
  "older_than (next_res w) w \<Longrightarrow> older_than (next_res (serve_all rs w)) (serve_all rs w)"
  unfolding serve_all_def by (induction rs arbitrary: w) (simp_all add: stream_fresh_serve)

lemma stream_fresh_for_loop:
  "older_than (next_res w) w \<Longrightarrow>
   older_than (next_res (for_loop E sched j i n w)) (for_loop E sched j i n w)"
proof (induction E sched j i n w rule: for_loop.induct)
  case (1 E sched j i n w)
  show ?case
  proof (cases "i < n")
    case False
    with "1.prems" show ?thesis by (simp add: for_loop.simps [of E sched j i])
  next
    case True
    from "1.prems" have "older_than (next_res (serve_all (sched i) w)) (serve_all (sched i) w)"
      by (rule stream_fresh_serve_all)
    then have "older_than (next_res (loop_body E j i (serve_all (sched i) w)))
                 (loop_body E j i (serve_all (sched i) w))"
      by (simp add: older_than_loop_body)
    from "1.IH" [OF True this] True show ?thesis
      by (simp add: for_loop.simps [of E sched j i])
  qed
qed

lemma stream_fresh_processAnalysisJob:
  "older_than (next_res w) w \<Longrightarrow>
   older_than (next_res (processAnalysisJob E sched now j w)) (processAnalysisJob E sched now j w)"
  by (cases "analysisJobs w j")
     (simp_all add: processAnalysisJob_def stream_fresh_for_loop older_than_finish_job)

lemma stream_fresh_new_job:
  assumes "older_than (next_res w) w"
  shows "older_than (next_res w)
           (w\<lparr>analysisJobs := (analysisJobs w)(j \<mapsto> new_job us hh fh now),
              analysisJobs_defined := True\<rparr>)"
  using assms
  by (auto simp: older_than_def connections_def sse_of_def new_job_def split: option.splits if_splits)

lemma stream_inv_reached:
  assumes "older_than (next_res w) w"
  shows "stream_inv jobId (serve_all rs w)"
    and "stream_inv jobId (for_loop E sched j i n w)"
    and "stream_inv jobId (processAnalysisJob E sched now j w)"
  using assms
  by (simp_all add: older_than_stream_inv stream_fresh_serve_all stream_fresh_for_loop
      stream_fresh_processAnalysisJob)

lemma demo_world_older_than: "older_than (next_res demo_world) demo_world"
  by (simp add: older_than_def demo_world_def connections_def sse_of_def demo_job_def
      split: option.splits)

lemma terminal_inv_stream_inv: "terminal_inv jobId w \<Longrightarrow> stream_inv jobId w"
  by (simp add: terminal_inv_def stream_inv_def)

subsection \<open>The terminal event when the prototype is left alone\<close>

text \<open>
  The stronger invariant \<open>terminal_inv\<close> holds when a job is created, and the steps of the
  model keep it as long as \<^verbatim>\<open>Object.prototype\<close> is not given the property
  \<^verbatim>\<open>sseConnections\<close>, which only a request for the event stream of \<^verbatim>\<open>__proto__\<close> does.
\<close>


lemma wrote_to_conn_of: "wrote_to c e \<Longrightarrow> conn_of e = c"
  by (cases e) simp_all

lemma finished_to_wrote_to: "finished_to c e \<Longrightarrow> wrote_to c e"
  by (cases e) simp_all

lemma list_ex_append_iff: "list_ex P (xs @ ys) \<longleftrightarrow> list_ex P xs \<or> list_ex P ys"
  by (auto simp: list_ex_iff)

lemma finished_last_append:
  "finished_last (xs @ ys) \<longleftrightarrow>
     finished_last xs \<and> finished_last ys
     \<and> (\<forall>c. list_ex (finished_to c) xs \<longrightarrow> \<not> list_ex (wrote_to c) ys)"
proof (induction xs)
  case Nil
  then show ?case by simp
next
  case (Cons e xs)
  show ?case
  proof (cases e)
    case (Wrote res ev)
    then show ?thesis
      using Cons.IH by (auto simp: list_ex_append_iff)
  next
    case (Ended res)
    then show ?thesis using Cons.IH by simp
  next
    case (SentError res code message)
    then show ?thesis using Cons.IH by simp
  next
    case (Threw res)
    then show ?thesis using Cons.IH by simp
  qed
qed

lemma finished_last_no_finished:
  "\<forall>e\<in>set es. \<forall>c. \<not> finished_to c e \<Longrightarrow> finished_last es"
proof (induction es)
  case Nil
  then show ?case by simp
next
  case (Cons e es)
  then have "finished_last es" by simp
  moreover from Cons.prems have "\<forall>c. \<not> finished_to c e" by simp
  ultimately show ?case by (cases e) auto
qed

lemma finished_last_writes:
  "distinct cs \<Longrightarrow> finished_last (map (\<lambda>c. Wrote c ev) cs)"
  by (induction cs) (auto simp: list_ex_iff)

lemma finished_last_replay: "finished_last (replay jobId now job res)"
proof -
  let ?pre = "Wrote res (Started jobId (total_pages job) (length (completed job)))
     # map (\<lambda>result. Wrote res (PageComplete result)) (completed job)"
  have p: "\<forall>e\<in>set ?pre. \<forall>c. \<not> finished_to c e" by auto
  then have "finished_last ?pre" by (rule finished_last_no_finished)
  moreover have "\<not> list_ex (finished_to c) ?pre" for c
    using p by (simp add: list_ex_iff del: set_simps) 
  ultimately have "finished_last (?pre @ ys) = finished_last ys" for ys
    by (simp only: finished_last_append) simp
  then show ?thesis
    unfolding replay_def by (simp del: finished_last.simps(2)) simp
qed

lemma replay_no_finished:
  "status job = StatusStarted \<Longrightarrow> e \<in> set (replay jobId now job res) \<Longrightarrow> \<not> finished_to c e"
  by (auto simp: replay_def)

lemma fresh_extension:
  assumes "\<forall>e\<in>set tr. conn_of e < n" and "\<forall>e\<in>set extra. conn_of e = n"
    and "finished_last tr" and "finished_last extra"
  shows "finished_last (tr @ extra)"
    and "c < n \<Longrightarrow> list_ex (finished_to c) (tr @ extra) = list_ex (finished_to c) tr"
    and "list_ex (finished_to n) (tr @ extra) = list_ex (finished_to n) extra"
proof -
  have a: "\<not> list_ex (wrote_to c) extra" if "list_ex (finished_to c) tr" for c
  proof
    assume "list_ex (wrote_to c) extra"
    then obtain e where e: "e \<in> set extra" "wrote_to c e" by (auto simp: list_ex_iff)
    with assms(2) wrote_to_conn_of have "c = n" by fastforce
    moreover from that obtain e' where "e' \<in> set tr" "finished_to c e'"
      by (auto simp: list_ex_iff)
    with assms(1) finished_to_wrote_to wrote_to_conn_of have "c < n" by fastforce
    ultimately show False by simp
  qed
  with assms(3,4) show "finished_last (tr @ extra)"
    by (simp add: finished_last_append)
  show "list_ex (finished_to c) (tr @ extra) = list_ex (finished_to c) tr" if "c < n"
  proof -
    have "\<not> list_ex (finished_to c) extra"
    proof
      assume "list_ex (finished_to c) extra"
      then obtain e where "e \<in> set extra" "finished_to c e" by (auto simp: list_ex_iff)
      with assms(2) finished_to_wrote_to wrote_to_conn_of have "c = n" by fastforce
      with that show False by simp
    qed
    then show ?thesis by (simp add: list_ex_append_iff)
  qed
  show "list_ex (finished_to n) (tr @ extra) = list_ex (finished_to n) extra"
  proof -
    have "\<not> list_ex (finished_to n) tr"
    proof
      assume "list_ex (finished_to n) tr"
      then obtain e where "e \<in> set tr" "finished_to n e" by (auto simp: list_ex_iff)
      with assms(1) finished_to_wrote_to wrote_to_conn_of have "n < n" by fastforce
      then show False by simp
    qed
    then show ?thesis by (simp add: list_ex_append_iff)
  qed
qed

lemma broadcast_inv:
  assumes 1: "trace_fresh w"
    and 2: "\<forall>c\<in>set (connections j w). c < next_res w"
    and 3: "distinct (connections j w)"
    and 4: "finished_last (trace w)"
    and 5: "\<forall>c\<in>set (connections j w). \<not> list_ex (finished_to c) (trace w)"
  shows "trace_fresh (broadcastToJob j ev w)"
    and "\<forall>c\<in>set (connections j (broadcastToJob j ev w)). c < next_res (broadcastToJob j ev w)"
    and "distinct (connections j (broadcastToJob j ev w))"
    and "finished_last (trace (broadcastToJob j ev w))"
    and "\<not> is_finished_event ev \<Longrightarrow>
         \<forall>c\<in>set (connections j (broadcastToJob j ev w)).
            \<not> list_ex (finished_to c) (trace (broadcastToJob j ev w))"
proof -
  let ?R = "snd (deliver (broken w) (connections j w))"
  let ?K = "fst (deliver (broken w) (connections j w))"
  have R: "set ?R \<subseteq> set (connections j w)" and K: "set ?K \<subseteq> set (connections j w)"
    using deliver_set [of "broken w" "connections j w"] by simp_all
  have dR: "distinct ?R" and dK: "distinct ?K"
    using deliver_distinct [OF 3, of "broken w"] by simp_all
  show "trace_fresh (broadcastToJob j ev w)"
    using 1 2 R by (auto simp: trace_fresh_def trace_broadcastToJob)
  show "\<forall>c\<in>set (connections j (broadcastToJob j ev w)). c < next_res (broadcastToJob j ev w)"
    using 2 K by (auto simp: connections_broadcastToJob)
  show "distinct (connections j (broadcastToJob j ev w))"
    using dK by (simp add: connections_broadcastToJob)
  have cross: "\<not> list_ex (wrote_to c) (map (\<lambda>c. Wrote c ev) ?R)"
    if "list_ex (finished_to c) (trace w)" for c
  proof -
    from that 5 have "c \<notin> set (connections j w)" by blast
    with R have "c \<notin> set ?R" by blast
    then show ?thesis by (auto simp: list_ex_iff)
  qed
  show "finished_last (trace (broadcastToJob j ev w))"
    using 4 dR cross
    by (simp add: trace_broadcastToJob finished_last_append finished_last_writes)
  show "\<forall>c\<in>set (connections j (broadcastToJob j ev w)).
            \<not> list_ex (finished_to c) (trace (broadcastToJob j ev w))"
    if "\<not> is_finished_event ev"
  proof
    fix c assume "c \<in> set (connections j (broadcastToJob j ev w))"
    with K have "c \<in> set (connections j w)" by (auto simp: connections_broadcastToJob)
    with 5 have "\<not> list_ex (finished_to c) (trace w)" by blast
    moreover have "\<not> list_ex (finished_to c) (map (\<lambda>c. Wrote c ev) ?R)"
      using that by (auto simp: list_ex_iff)
    ultimately show "\<not> list_ex (finished_to c) (trace (broadcastToJob j ev w))"
      by (simp add: trace_broadcastToJob list_ex_append_iff)
  qed
qed


lemma running_job_view:
  "running jobId w = (case job_view w jobId of None \<Rightarrow> False | Some job \<Rightarrow> status job = StatusStarted)"
  by (simp add: running_def job_view_def split: option.splits)

lemma running_serve [simp]: "running jobId (serve r w) = running jobId w"
  by (simp add: running_job_view)

lemma running_serve_all [simp]: "running jobId (serve_all rs w) = running jobId w"
  by (simp add: running_job_view)

lemma running_loop_body [simp]: "running jobId (loop_body E j i w) = running jobId w"
  by (cases "job_view w j") (auto simp: running_job_view job_view_loop_body)

lemma running_Some:
  "analysisJobs w j = Some job \<Longrightarrow> running j w = (status job = StatusStarted)"
  by (simp add: running_def)

lemma running_finish_job [simp]: "\<not> running j (finish_job j now w)"
  by (cases "job_view w j") (simp_all add: running_job_view job_view_finish_job)

lemma unpolluted_frame [simp]:
  "unpolluted (w\<lparr>trace := t\<rparr>) = unpolluted w"
  "unpolluted (w\<lparr>closeHandlers := h\<rparr>) = unpolluted w"
  "unpolluted (w\<lparr>broken := b\<rparr>) = unpolluted w"
  "unpolluted (w\<lparr>next_res := n\<rparr>) = unpolluted w"
  "unpolluted (w\<lparr>spawned := s\<rparr>) = unpolluted w"
  "unpolluted (w\<lparr>analysisJobs := js\<rparr>) = unpolluted w"
  "unpolluted (w\<lparr>function_sseConnections := f\<rparr>) = unpolluted w"
  by (simp_all add: unpolluted_def)

lemma unpolluted_sse_of: "unpolluted w \<Longrightarrow> sse_of w job = sseConnections job"
  by (simp add: unpolluted_def sse_of_def split: option.splits)

lemma unpolluted_connections:
  "unpolluted w \<Longrightarrow>
   connections j w =
     (case analysisJobs w j of
        None \<Rightarrow> []
      | Some job \<Rightarrow> (case sseConnections job of None \<Rightarrow> [] | Some conns \<Rightarrow> conns))"
  by (simp add: connections_def unpolluted_sse_of cong: option.case_cong)

lemma unpolluted_update_sse:
  "unpolluted w \<Longrightarrow> sse_of w job = Some conns \<Longrightarrow> unpolluted (update_sse j job cs w)"
  by (simp add: update_sse_def unpolluted_sse_of split: option.splits)

lemma connections_update_sse_other:
  "unpolluted w \<Longrightarrow> sse_of w job = Some conns \<Longrightarrow> j \<noteq> j' \<Longrightarrow>
   connections j (update_sse j' job cs w) = connections j w"
  by (auto simp: update_sse_def unpolluted_def connections_def sse_of_def
      split: option.splits)

lemma unpolluted_broadcastToJob:
  "unpolluted w \<Longrightarrow> unpolluted (broadcastToJob j ev w)"
proof (cases "analysisJobs w j")
  case None
  then show "unpolluted w \<Longrightarrow> ?thesis" by (simp add: broadcastToJob_def)
next
  case (Some job)
  assume u: "unpolluted w"
  show ?thesis
  proof (cases "sse_of w job")
    case None
    with Some u show ?thesis by (simp add: broadcastToJob_def)
  next
    case (Some conns)
    have "unpolluted (update_sse j job cs (w\<lparr>trace := t\<rparr>))" for cs t
      using u Some by (intro unpolluted_update_sse [of _ _ conns]) simp_all
    with \<open>analysisJobs w j = Some job\<close> Some show ?thesis
      by (simp add: broadcastToJob_deliver)
  qed
qed

lemma unpolluted_loop_body: "unpolluted w \<Longrightarrow> unpolluted (loop_body E j i w)"
  by (cases "analysisJobs w j") (simp_all add: loop_body_def unpolluted_broadcastToJob)

lemma unpolluted_close_connections:
  "unpolluted w \<Longrightarrow> unpolluted (close_connections j w)"
  by (simp add: close_connections_def split: option.splits)

lemma unpolluted_finish_job: "unpolluted w \<Longrightarrow> unpolluted (finish_job j now w)"
  by (cases "analysisJobs w j")
     (simp_all add: finish_job_def unpolluted_close_connections unpolluted_broadcastToJob)

lemma unpolluted_inherited_subscribe:
  "unpolluted w \<Longrightarrow> j \<noteq> ''__proto__'' \<Longrightarrow> inherited_subscribe j w = Some w1 \<Longrightarrow> unpolluted w1"
  by (auto simp: inherited_subscribe_def unpolluted_def Let_def split: if_splits option.splits)

lemma unpolluted_analysis_stream:
  assumes "unpolluted w" and "j \<noteq> ''__proto__''"
  shows "unpolluted (analysis_stream j now w)"
proof (cases "analysisJobs w j")
  case None
  with assms show ?thesis
    by (auto simp: analysis_stream_def dest: unpolluted_inherited_subscribe split: option.splits)
next
  case (Some job)
  have "unpolluted (update_sse j job cs w)" if "sse_of w job = Some conns" for cs conns
    using assms(1) that by (rule unpolluted_update_sse)
  with Some assms(1) show ?thesis
    by (simp add: analysis_stream_def Let_def split: option.splits)
qed

lemma unpolluted_on_close: "unpolluted w \<Longrightarrow> unpolluted (on_close j res w)"
  by (auto simp: on_close_def unpolluted_update_sse split: option.splits)

lemma unpolluted_serve: "unpolluted w \<Longrightarrow> ordinary r \<Longrightarrow> unpolluted (serve r w)"
  by (cases r) (simp_all add: unpolluted_analysis_stream unpolluted_on_close)

lemma unpolluted_serve_all:
  "unpolluted w \<Longrightarrow> list_all ordinary rs \<Longrightarrow> unpolluted (serve_all rs w)"
  unfolding serve_all_def by (induction rs arbitrary: w) (simp_all add: unpolluted_serve)

lemma connections_analysis_stream_other:
  assumes "unpolluted w" and "j' \<noteq> ''__proto__''" and "j \<noteq> j'"
  shows "connections j (analysis_stream j' now w) = connections j w"
proof (cases "analysisJobs w j'")
  case None
  show ?thesis
  proof (cases "if analysisJobs_defined w then inherited_subscribe j' w else None")
    case None
    with \<open>analysisJobs w j' = None\<close> show ?thesis
      by (simp add: analysis_stream_def connections_def sse_of_def cong: option.case_cong)
  next
    case (Some w1)
    then have i: "inherited_subscribe j' w = Some w1" by (simp split: if_splits)
    have u: "unpolluted w1" using assms(1,2) i by (rule unpolluted_inherited_subscribe)
    have "connections j w1 = connections j w"
      using assms(1) u inherited_subscribe_frame(1) [OF i]
      by (simp add: unpolluted_connections)
    with \<open>analysisJobs w j' = None\<close> Some show ?thesis
      by (simp add: analysis_stream_def)
  qed
next
  case (Some job)
  have o: "connections j (update_sse j' job cs w) = connections j w"
    if "sse_of w job = Some conns" for cs conns
    using assms(1) that assms(3) by (rule connections_update_sse_other)
  have n: "connections j (w\<lparr>analysisJobs := (analysisJobs w)(j' \<mapsto> x)\<rparr>) = connections j w" for x
    using assms(3) by (simp add: connections_def cong: option.case_cong)
  from Some o n show ?thesis
    by (simp add: analysis_stream_def Let_def split: option.splits)
qed

lemma connections_on_close_other:
  assumes "unpolluted w" and "j \<noteq> j'"
  shows "connections j (on_close j' res w) = connections j w"
  using assms by (auto simp: on_close_def connections_update_sse_other split: option.splits)

lemma analysis_stream_extra:
  "\<exists>extra. trace (analysis_stream j now w) = trace w @ extra
     \<and> (\<forall>e\<in>set extra. conn_of e = next_res w)
     \<and> finished_last extra
     \<and> (running j w \<longrightarrow> \<not> list_ex (finished_to (next_res w)) extra)"
proof (cases "analysisJobs w j")
  case None
  then show ?thesis
    by (simp add: trace_analysis_stream_unknown)
next
  case (Some job)
  show ?thesis
  proof (cases "broken w (next_res w)")
    case True
    with Some show ?thesis by (simp add: trace_analysis_stream)
  next
    case False
    have "running j w \<longrightarrow> \<not> list_ex (finished_to (next_res w)) (replay j now job (next_res w))"
      using Some replay_no_finished [of job _ j now "next_res w" "next_res w"]
      by (auto simp: running_Some list_ex_iff)
    with Some False show ?thesis
      by (auto simp: trace_analysis_stream finished_last_replay dest: replay_conn_of)
  qed
qed

lemma terminal_inv_analysis_stream:
  assumes "terminal_inv j w" and "unpolluted w" and "jobId \<noteq> ''__proto__''"
  shows "terminal_inv j (analysis_stream jobId now w)"
proof -
  let ?n = "next_res w"
  let ?w' = "analysis_stream jobId now w"
  from assms(1) have 1: "\<forall>e\<in>set (trace w). conn_of e < ?n"
    and 2: "\<forall>c\<in>set (connections j w). c < ?n"
    and 3: "distinct (connections j w)"
    and 4: "finished_last (trace w)"
    and 5: "running j w \<longrightarrow> (\<forall>c\<in>set (connections j w). \<not> list_ex (finished_to c) (trace w))"
    by (simp_all add: terminal_inv_def trace_fresh_def)
  from analysis_stream_extra [of jobId now w] obtain extra
    where t: "trace ?w' = trace w @ extra"
      and e: "\<forall>e\<in>set extra. conn_of e = ?n"
      and f: "finished_last extra"
      and g: "running jobId w \<longrightarrow> \<not> list_ex (finished_to ?n) extra"
    by blast
  note ext = fresh_extension [OF 1 e 4 f]
  have cs: "connections j ?w' =
      (if j = jobId \<and> analysisJobs w jobId \<noteq> None then connections j w @ [?n]
       else connections j w)"
  proof (cases "j = jobId")
    case True
    then show ?thesis by (simp add: connections_analysis_stream)
  next
    case False
    with assms(2,3) show ?thesis by (simp add: connections_analysis_stream_other)
  qed
  have a: "trace_fresh ?w'"
    using 1 e unfolding trace_fresh_def t by fastforce
  have b: "\<forall>c\<in>set (connections j ?w'). c < next_res ?w'"
    using 2 by (auto simp: cs less_Suc_eq)
  have c: "distinct (connections j ?w')"
    using 2 3 by (auto simp: cs)
  have d: "finished_last (trace ?w')"
    unfolding t by (rule ext(1))
  have r: "running j ?w' = running j w"
    by (simp add: running_job_view)
  have h: "\<not> list_ex (finished_to c) (trace ?w')"
    if rj: "running j w" and c: "c \<in> set (connections j ?w')" for c
  proof (cases "c = ?n")
    case False
    with c have c': "c \<in> set (connections j w)"
      by (auto simp: cs split: if_splits)
    with 2 have "c < ?n" by blast
    from ext(2) [OF this] 5 rj c' show ?thesis unfolding t by simp
  next
    case True
    with c 2 have "j = jobId"
      by (auto simp: cs split: if_splits)
    with rj g have "\<not> list_ex (finished_to ?n) extra" by simp
    with ext(3) True show ?thesis unfolding t by simp
  qed
  from a b c d h show ?thesis
    by (simp add: terminal_inv_def r)
qed

lemma terminal_inv_on_close:
  assumes "terminal_inv j w" and "unpolluted w"
  shows "terminal_inv j (on_close jobId res w)"
proof -
  have s: "set (connections j (on_close jobId res w)) \<subseteq> set (connections j w)"
    using set_remove1_subset [of res "connections jobId w"] assms(2)
    by (cases "j = jobId") (auto simp: connections_on_close connections_on_close_other)
  have d: "distinct (connections j w) \<Longrightarrow> distinct (connections j (on_close jobId res w))"
    using assms(2)
    by (cases "j = jobId") (auto simp: connections_on_close connections_on_close_other)
  have r: "running j (on_close jobId res w) = running j w"
    by (simp add: running_job_view)
  from assms(1) s d show ?thesis
    unfolding terminal_inv_def trace_fresh_def r by auto
qed

lemma terminal_inv_closeHandlers_update [simp]:
  "terminal_inv j (w\<lparr>closeHandlers := h\<rparr>) = terminal_inv j w"
  by (simp add: terminal_inv_def trace_fresh_def running_job_view)

lemma terminal_inv_broken_update [simp]:
  "terminal_inv j (w\<lparr>broken := b\<rparr>) = terminal_inv j w"
  by (simp add: terminal_inv_def trace_fresh_def running_job_view)

lemma terminal_inv_serve:
  "terminal_inv j w \<Longrightarrow> unpolluted w \<Longrightarrow> ordinary r \<Longrightarrow> terminal_inv j (serve r w)"
  by (cases r) (simp_all add: terminal_inv_analysis_stream terminal_inv_on_close)

lemma terminal_inv_serve_all:
  "terminal_inv j w \<Longrightarrow> unpolluted w \<Longrightarrow> list_all ordinary rs \<Longrightarrow>
   terminal_inv j (serve_all rs w) \<and> unpolluted (serve_all rs w)"
  unfolding serve_all_def
  by (induction rs arbitrary: w) (simp_all add: terminal_inv_serve unpolluted_serve)

lemma terminal_inv_loop_body:
  assumes "terminal_inv j w" and "running j w"
  shows "terminal_inv j (loop_body E j i w)"
proof (cases "analysisJobs w j")
  case None
  with assms show ?thesis by (simp add: loop_body_def)
next
  case (Some job)
  let ?w1 = "w\<lparr>analysisJobs :=
                 (analysisJobs w)(j \<mapsto> job\<lparr>completed := completed job @ [page_result_of E job i]\<rparr>),
               spawned := spawned w @ fst (try_block E job i (urls job ! i))\<rparr>"
  let ?ev = "PageComplete (page_result_of E job i)"
  have c: "connections j ?w1 = connections j w"
    using Some by (simp add: connections_completed_update)
  have lb: "loop_body E j i w = broadcastToJob j ?ev ?w1"
    using Some by (simp add: loop_body_def)
  have r: "running j (broadcastToJob j ?ev ?w1)"
    using assms(2) running_loop_body [of j E j i w] unfolding lb by simp
  from assms have "trace_fresh ?w1" "\<forall>c\<in>set (connections j ?w1). c < next_res ?w1"
    "distinct (connections j ?w1)" "finished_last (trace ?w1)"
    "\<forall>c\<in>set (connections j ?w1). \<not> list_ex (finished_to c) (trace ?w1)"
    unfolding c by (simp_all add: terminal_inv_def trace_fresh_def)
  from broadcast_inv [OF this, of ?ev] r
  have "terminal_inv j (broadcastToJob j ?ev ?w1)"
    by (simp add: terminal_inv_def)
  then show ?thesis unfolding lb .
qed

lemma terminal_inv_for_loop:
  "terminal_inv j w \<Longrightarrow> unpolluted w \<Longrightarrow> running j w \<Longrightarrow> \<forall>k. list_all ordinary (sched k) \<Longrightarrow>
     terminal_inv j (for_loop E sched j i n w) \<and> unpolluted (for_loop E sched j i n w)
     \<and> running j (for_loop E sched j i n w)"
proof (induction E sched j i n w rule: for_loop.induct)
  case (1 E sched j i n w)
  show ?case
  proof (cases "i < n")
    case False
    with "1.prems" show ?thesis by (simp add: for_loop.simps [of E sched j i n])
  next
    case True
    from "1.prems" have s: "terminal_inv j (serve_all (sched i) w) \<and> unpolluted (serve_all (sched i) w)"
      by (intro terminal_inv_serve_all) simp_all
    have a: "terminal_inv j (loop_body E j i (serve_all (sched i) w))"
      using s "1.prems"(3) by (intro terminal_inv_loop_body) simp_all
    have b: "unpolluted (loop_body E j i (serve_all (sched i) w))"
      using s by (simp add: unpolluted_loop_body)
    have c: "running j (loop_body E j i (serve_all (sched i) w))"
      using "1.prems"(3) by simp
    from "1.IH" [OF True a b c "1.prems"(4)] True show ?thesis
      by (simp add: for_loop.simps [of E sched j i n])
  qed
qed

lemma finish_job_Some:
  "analysisJobs w j = Some job \<Longrightarrow>
   finish_job j now w =
     close_connections j
       (broadcastToJob j (Finished j (length (completed job)) (now - startTime job))
          (w\<lparr>analysisJobs := (analysisJobs w)(j \<mapsto> job\<lparr>status := StatusFinished\<rparr>)\<rparr>))"
  by (simp add: finish_job_def)

lemma terminal_inv_finish_job:
  assumes "terminal_inv j w" and "running j w"
  shows "terminal_inv j (finish_job j now w)"
proof -
  from assms(2) obtain job where job: "analysisJobs w j = Some job"
    by (auto simp: running_def split: option.splits)
  let ?w1 = "w\<lparr>analysisJobs := (analysisJobs w)(j \<mapsto> job\<lparr>status := StatusFinished\<rparr>)\<rparr>"
  let ?ev = "Finished j (length (completed job)) (now - startTime job)"
  let ?w2 = "broadcastToJob j ?ev ?w1"
  have c: "connections j ?w1 = connections j w"
    using job by (rule connections_status_update)
  from assms have "trace_fresh ?w1" "\<forall>c\<in>set (connections j ?w1). c < next_res ?w1"
    "distinct (connections j ?w1)" "finished_last (trace ?w1)"
    "\<forall>c\<in>set (connections j ?w1). \<not> list_ex (finished_to c) (trace ?w1)"
    unfolding c by (simp_all add: terminal_inv_def trace_fresh_def)
  note b = broadcast_inv [OF this, of ?ev]
  have f: "finish_job j now w = close_connections j ?w2"
    using job by (rule finish_job_Some)
  have 1: "trace_fresh (close_connections j ?w2)"
    using b(1,2) by (auto simp: trace_fresh_def trace_close_connections)
  have e: "finished_last (map Ended cs)" for cs
    by (rule finished_last_no_finished) auto
  have 4: "finished_last (trace (close_connections j ?w2))"
    using b(4) e
    by (auto simp: trace_close_connections finished_last_append list_ex_iff)
  from 1 4 show ?thesis
    unfolding terminal_inv_def f [symmetric] by (simp add: connections_finish_job)
qed

lemma terminal_inv_new_job:
  assumes "trace_fresh w" and "finished_last (trace w)" and "unpolluted w"
  shows "terminal_inv jobId (w\<lparr>analysisJobs := (analysisJobs w)(jobId \<mapsto> new_job us hh fh t0)\<rparr>)"
  using assms
  by (simp add: terminal_inv_def trace_fresh_def connections_def sse_of_def unpolluted_def
      new_job_def)

text \<open>
  So, as long as no request asks for the event stream of \<^verbatim>\<open>__proto__\<close>, the run of a job
  and the requests served during and after it keep the invariant: a connection that
  has received a \<^verbatim>\<open>finished\<close> event receives nothing after it. Which connections receive
  the event is the matter of the fan-out.
\<close>

lemma nothing_after_finished:
  assumes "analysisJobs w j = Some job" and "status job = StatusStarted"
    and "terminal_inv j w" and "unpolluted w"
    and "\<forall>k. list_all ordinary (sched k)" and "list_all ordinary later"
  shows "terminal_inv j (serve_all later (processAnalysisJob E sched now j w))
       \<and> finished_last (trace (serve_all later (processAnalysisJob E sched now j w)))"
proof -
  let ?wl = "for_loop E sched j 0 (length (urls job)) w"
  have r: "running j w" using assms(1,2) by (simp add: running_def)
  have p: "processAnalysisJob E sched now j w = finish_job j now ?wl"
    using assms(1) by (simp add: processAnalysisJob_def)
  from terminal_inv_for_loop [OF assms(3,4) r assms(5)]
  have l: "terminal_inv j ?wl" "unpolluted ?wl" "running j ?wl" by blast+
  have "terminal_inv j (finish_job j now ?wl)"
    using l(1,3) by (rule terminal_inv_finish_job)
  moreover have "unpolluted (finish_job j now ?wl)"
    using l(2) by (rule unpolluted_finish_job)
  ultimately have "terminal_inv j (serve_all later (finish_job j now ?wl))"
    using assms(6) terminal_inv_serve_all by blast
  then show ?thesis
    unfolding p by (simp add: terminal_inv_def)
qed


subsection \<open>The terminal event\<close>

text \<open>
  C6 at its failing input. The demo job runs; three subscribers arrive during the first
  URL, and during the second URL the connections of the first two become ones whose
  \<^verbatim>\<open>write\<close> throws. The third subscriber, whose connection works, receives the snapshot
  and both page results. When the loop ends, the second and the third subscriber are
  attached. The fan-out of the \<^verbatim>\<open>finished\<close> event removes the second, whose write throws,
  and passes over the third, which has moved into its place in the array: no \<^verbatim>\<open>finished\<close>
  event is written to any connection. The third subscriber is then ended, its last
  event being a page result; the second one is never ended. The job is \<^verbatim>\<open>finished\<close> and
  its subscriber set is empty. The end of the job does the same in the state
  \<open>two_observers\<close>, where a subscriber whose write throws stands before one whose write
  works: nothing is written, and only the second is ended.
\<close>

theorem finished_event_missed:
  "connections ''job1'' (for_loop demo_env crowd_sched ''job1'' 0 2 demo_world) = [1, 2]
   \<and> broken (for_loop demo_env crowd_sched ''job1'' 0 2 demo_world) 1
   \<and> \<not> broken (for_loop demo_env crowd_sched ''job1'' 0 2 demo_world) 2
   \<and> processAnalysisJob demo_env crowd_sched 2000 ''job1'' demo_world
       = finish_job ''job1'' 2000 (for_loop demo_env crowd_sched ''job1'' 0 2 demo_world)
   \<and> trace (processAnalysisJob demo_env crowd_sched 2000 ''job1'' demo_world) =
       [Wrote 0 (Started ''job1'' 2 0),
        Wrote 1 (Started ''job1'' 2 0),
        Wrote 2 (Started ''job1'' 2 0),
        Wrote 0 (PageComplete (Failure ''https://x.com/'' ''Screenshot failed: spawn ENOENT'')),
        Wrote 1 (PageComplete (Failure ''https://x.com/'' ''Screenshot failed: spawn ENOENT'')),
        Wrote 2 (PageComplete (Failure ''https://x.com/'' ''Screenshot failed: spawn ENOENT'')),
        Wrote 2 (PageComplete (Failure ''https://x.com/products''
                                 ''Screenshot failed: spawn ENOENT'')),
        Ended 2]
   \<and> \<not> list_ex (\<lambda>e. \<exists>c. finished_to c e)
         (trace (processAnalysisJob demo_env crowd_sched 2000 ''job1'' demo_world))
   \<and> map_option status
        (job_view (processAnalysisJob demo_env crowd_sched 2000 ''job1'' demo_world) ''job1'')
       = Some StatusFinished
   \<and> connections ''job1'' (processAnalysisJob demo_env crowd_sched 2000 ''job1'' demo_world) = []
   \<and> trace (finish_job ''job1'' 2000 two_observers) = trace two_observers @ [Ended 1]"
proof -
  let ?loop = "for_loop demo_env crowd_sched ''job1'' 0 2 demo_world"
  let ?end = "processAnalysisJob demo_env crowd_sched 2000 ''job1'' demo_world"
  have two: "(2::nat) = Suc (Suc 0)" by simp
  have c: "connections ''job1'' ?loop = [1, 2]"
    unfolding two
    by (simp add: observers demo_world_obs for_loop_unroll serve_all_def crowd_sched_def)
  have b: "broken ?loop 1 \<and> \<not> broken ?loop 2"
    unfolding two
    by (simp add: observers demo_world_obs for_loop_unroll serve_all_def crowd_sched_def)
  have p: "?end = finish_job ''job1'' 2000 ?loop"
    by (simp add: processAnalysisJob_def demo_world_def demo_job_def numeral_2_eq_2)
  have t: "trace ?end =
       [Wrote 0 (Started ''job1'' 2 0),
        Wrote 1 (Started ''job1'' 2 0),
        Wrote 2 (Started ''job1'' 2 0),
        Wrote 0 (PageComplete (Failure ''https://x.com/'' ''Screenshot failed: spawn ENOENT'')),
        Wrote 1 (PageComplete (Failure ''https://x.com/'' ''Screenshot failed: spawn ENOENT'')),
        Wrote 2 (PageComplete (Failure ''https://x.com/'' ''Screenshot failed: spawn ENOENT'')),
        Wrote 2 (PageComplete (Failure ''https://x.com/products''
                                 ''Screenshot failed: spawn ENOENT'')),
        Ended 2]"
    by (simp add: observers demo_world_obs demo_urls for_loop_unroll serve_all_def
        crowd_sched_def replay_def demo_page_results demo_job_fields)
  have n: "\<not> list_ex (\<lambda>e. \<exists>c. finished_to c e) (trace ?end)"
    unfolding t by simp
  have "analysisJobs demo_world ''job1'' = Some demo_job"
    by (simp add: demo_world_def)
  then have s: "map_option status (job_view ?end ''job1'') = Some StatusFinished"
    by (simp add: job_view_processAnalysisJob)
  have e: "connections ''job1'' ?end = []"
    by (simp add: observers demo_world_obs)
  have f: "trace (finish_job ''job1'' 2000 two_observers) = trace two_observers @ [Ended 1]"
    by (simp add: trace_finish_job job_view_def connections_def sse_of_def two_observers_def
        demo_world_def)
  from c b p t n s e f show ?thesis by blast
qed


end
